theory Spec2Isabelle
  imports Complex_Main "HOL-Library.Product_Lexorder"
begin

section \<open>Values, rows and frames\<close>

text \<open>
  The program is a script over pandas data frames. A cell of a numeric frame is a float;
  it is modelled as a real number, the missing marker, or one of the two infinities, which
  a division by zero produces and the factor file may hold. Rounding and overflow are not
  part of the model, and zero is unsigned.
\<close>

datatype fl = NaN | PInf | NInf | Fin real

fun isna :: "fl \<Rightarrow> bool" where
  "isna NaN = True"
| "isna _ = False"

text \<open>Float subtraction and division on these values.\<close>

fun fl_sub :: "fl \<Rightarrow> fl \<Rightarrow> fl" where
  "fl_sub NaN _ = NaN"
| "fl_sub _ NaN = NaN"
| "fl_sub (Fin a) (Fin b) = Fin (a - b)"
| "fl_sub (Fin a) PInf = NInf"
| "fl_sub (Fin a) NInf = PInf"
| "fl_sub PInf PInf = NaN"
| "fl_sub PInf _ = PInf"
| "fl_sub NInf NInf = NaN"
| "fl_sub NInf _ = NInf"

fun fl_div :: "fl \<Rightarrow> fl \<Rightarrow> fl" where
  "fl_div NaN _ = NaN"
| "fl_div _ NaN = NaN"
| "fl_div (Fin a) (Fin b) =
     (if b \<noteq> 0 then Fin (a / b)
      else if a = 0 then NaN
      else if 0 < a then PInf else NInf)"
| "fl_div (Fin a) _ = Fin 0"
| "fl_div PInf (Fin b) = (if 0 \<le> b then PInf else NInf)"
| "fl_div NInf (Fin b) = (if 0 \<le> b then NInf else PInf)"
| "fl_div _ _ = NaN"

text \<open>A downloaded closing price is a finite number or missing.\<close>

definition of_input :: "real option \<Rightarrow> fl" where
  "of_input v = (case v of None \<Rightarrow> NaN | Some x \<Rightarrow> Fin x)"

text \<open>
  A row maps column names to cells; a frame is the list of its rows, each with its index
  label, in index order. The column list of a frame is carried beside it: selecting columns
  (\<^verbatim>\<open>df[cols]\<close>) changes that list only. A series is a one-column frame.
\<close>

type_synonym row = "string \<Rightarrow> fl"
type_synonym 'k frame = "('k \<times> row) list"
type_synonym 'k series = "('k \<times> fl) list"

text \<open>
  A calendar day is the pair of its month, counted as \<open>12 * year + (month - 1)\<close>, and
  its day of the month; pairs are ordered lexicographically, which is the order of time.
\<close>

type_synonym date = "nat \<times> nat"

definition month_of :: "date \<Rightarrow> nat" where
  "month_of d = fst d"

definition month_start :: "nat \<Rightarrow> nat \<Rightarrow> date" where
  "month_start y m = (12 * y + (m - 1), 1)"

text \<open>\<^verbatim>\<open>DataFrame.dropna()\<close>: a row stays when none of the frame's columns is missing in it.\<close>

definition complete :: "string list \<Rightarrow> row \<Rightarrow> bool" where
  "complete cols r = list_all (\<lambda>c. \<not> isna (r c)) cols"

definition dropna :: "string list \<Rightarrow> 'k frame \<Rightarrow> 'k frame" where
  "dropna cols f = filter (\<lambda>kr. complete cols (snd kr)) f"

definition dropna_series :: "'k series \<Rightarrow> 'k series" where
  "dropna_series s = filter (\<lambda>kv. \<not> isna (snd kv)) s"

definition column :: "string \<Rightarrow> 'k frame \<Rightarrow> 'k series" where
  "column c f = map (\<lambda>kr. (fst kr, snd kr c)) f"

section \<open>Settings and price data\<close>

definition stocks :: "string list" where
  "stocks = [''BKT.MC'', ''ENG.MC'', ''ANA.MC'', ''COL.MC'', ''LOG.MC'']"

definition index_ticker :: string where
  "index_ticker = ''^IBEX''"

definition all_tickers :: "string list" where
  "all_tickers = stocks @ [index_ticker]"

text \<open>
  The download is outside the program. Its \<^verbatim>\<open>Close\<close> table has one column for each
  requested ticker and one row for each day on which any of them traded; a ticker without a
  price on a day has a missing cell there.
\<close>

type_synonym close_table = "(date \<times> (string \<Rightarrow> real option)) list"

definition close_frame :: "close_table \<Rightarrow> date frame" where
  "close_frame data = map (\<lambda>dr. (fst dr, \<lambda>c. of_input (snd dr c))) data"

text \<open>\<^verbatim>\<open>prices = data["Close"].dropna()\<close>\<close>

definition prices :: "close_table \<Rightarrow> date frame" where
  "prices data = dropna all_tickers (close_frame data)"

section \<open>Return Builder\<close>

text \<open>
  \<^verbatim>\<open>monthly_prices = prices.resample("M").last()\<close>. Resampling orders the rows by date,
  opens one bin for every calendar month from the month of the first row to the month of the
  last one, whether or not a row falls into it, and \<^verbatim>\<open>last()\<close> takes in each bin, column by
  column, the last value that is not missing (missing when the bin has none). A bin is
  labelled by its month.
\<close>

fun last_valid :: "fl list \<Rightarrow> fl" where
  "last_valid [] = NaN"
| "last_valid (x # xs) = (if isna (last_valid xs) then x else last_valid xs)"

definition month_bin :: "nat \<Rightarrow> date frame \<Rightarrow> date frame" where
  "month_bin p f = filter (\<lambda>kr. month_of (fst kr) = p) f"

definition resample_last :: "date frame \<Rightarrow> nat frame" where
  "resample_last f =
     (let s = sort_key fst f in
      if s = [] then []
      else map (\<lambda>p. (p, \<lambda>c. last_valid (map (\<lambda>kr. snd kr c) (month_bin p s))))
             [month_of (fst (hd s)) ..< Suc (month_of (fst (last s)))])"

text \<open>
  \<^verbatim>\<open>pct_change()\<close> with the defaults of the pandas versions that accept the \<^verbatim>\<open>"M"\<close>
  alias: missing cells are first filled forward from the row above, then every row is divided
  by the row before it and 1 is subtracted; the first row has nothing before it.
\<close>

fun ffill_from :: "row \<Rightarrow> 'k frame \<Rightarrow> 'k frame" where
  "ffill_from prev [] = []"
| "ffill_from prev (kr # rest) =
     (fst kr, \<lambda>c. if isna (snd kr c) then prev c else snd kr c)
       # ffill_from (\<lambda>c. if isna (snd kr c) then prev c else snd kr c) rest"

definition ffill :: "'k frame \<Rightarrow> 'k frame" where
  "ffill f = ffill_from (\<lambda>c. NaN) f"

fun pct_from :: "row \<Rightarrow> 'k frame \<Rightarrow> 'k frame" where
  "pct_from prev [] = []"
| "pct_from prev (kr # rest) =
     (fst kr, \<lambda>c. fl_sub (fl_div (snd kr c) (prev c)) (Fin 1)) # pct_from (snd kr) rest"

definition pct_change :: "'k frame \<Rightarrow> 'k frame" where
  "pct_change f = pct_from (\<lambda>c. NaN) (ffill f)"

text \<open>
  \<^verbatim>\<open>monthly_returns = monthly_prices.pct_change().dropna()\<close>, then every label is moved to
  the first day of its month.
\<close>

definition monthly_prices :: "date frame \<Rightarrow> nat frame" where
  "monthly_prices pr = resample_last pr"

definition monthly_returns :: "date frame \<Rightarrow> date frame" where
  "monthly_returns pr =
     map (\<lambda>kr. ((fst kr, 1), snd kr)) (dropna all_tickers (pct_change (monthly_prices pr)))"

section \<open>Factor Loader\<close>

text \<open>Every exception the script can meet is a value.\<close>

datatype error =
    KeyError string
  | ValueError
  | OutOfBoundsDatetime
  | InvalidIndexError
  | MissingDataError

fun collect :: "('e + 'a) list \<Rightarrow> 'e + 'a list" where
  "collect [] = Inr []"
| "collect (x # xs) =
     (case x of
        Inl e \<Rightarrow> Inl e
      | Inr v \<Rightarrow> (case collect xs of Inl e \<Rightarrow> Inl e | Inr vs \<Rightarrow> Inr (v # vs)))"

text \<open>
  The factor file is read by \<^verbatim>\<open>pd.read_csv\<close>, outside the program. A row of it is the text
  of its first column (after \<^verbatim>\<open>astype(str)\<close>) and its other cells, each already passed
  through \<^verbatim>\<open>pd.to_numeric(errors="coerce")\<close>: a float, which is a number, an infinity
  (the text \<^verbatim>\<open>inf\<close>), or missing when the text is not a number. Characters are code points
  below 256; among them Python's whitespace and decimal digits are the ones below.
\<close>

type_synonym factor_file = "(string \<times> row) list"

definition is_space :: "char \<Rightarrow> bool" where
  "is_space c = ((of_char c :: nat) \<in> {9, 10, 11, 12, 13, 28, 29, 30, 31, 32, 133, 160})"

definition strip :: "string \<Rightarrow> string" where
  "strip s = rev (dropWhile is_space (rev (dropWhile is_space s)))"

definition is_digit :: "char \<Rightarrow> bool" where
  "is_digit c = (c \<in> set ''0123456789'')"

text \<open>
  \<^verbatim>\<open>str.match(r'^\d{6}$')\<close>: six digits from the start, then the end of the text; Python's
  \<^verbatim>\<open>$\<close> also matches just before one final newline.
\<close>

definition match_yyyymm :: "string \<Rightarrow> bool" where
  "match_yyyymm s =
     ((length s = 6 \<and> list_all is_digit s)
      \<or> (length s = 7 \<and> list_all is_digit (take 6 s) \<and> s ! 6 = CHR 0x0A))"

definition digits_val :: "string \<Rightarrow> nat" where
  "digits_val s = foldl (\<lambda>n c. 10 * n + (of_char c - 48)) 0 s"

text \<open>
  \<^verbatim>\<open>pd.to_datetime(token, format="%Y%m")\<close> on a token that passed the filter: the first four
  digits are the year, the last two the month, which has to be 01 to 12; the result is the
  first day of that month and has to lie in the range of a nanosecond timestamp
  (1677-09-21 to 2262-04-11). Anything else raises. No other text reaches this call.
\<close>

definition to_datetime :: "string \<Rightarrow> error + date" where
  "to_datetime s =
     (if length s = 6 \<and> list_all is_digit s
         \<and> 1 \<le> digits_val (drop 4 s) \<and> digits_val (drop 4 s) \<le> 12
      then (if month_start 1677 10 \<le> month_start (digits_val (take 4 s)) (digits_val (drop 4 s))
               \<and> month_start (digits_val (take 4 s)) (digits_val (drop 4 s)) \<le> month_start 2262 4
            then Inr (month_start (digits_val (take 4 s)) (digits_val (drop 4 s)))
            else Inl OutOfBoundsDatetime)
      else Inl ValueError)"

definition ff_cols :: "string list" where
  "ff_cols = [''Mkt-RF'', ''SMB'', ''HML'', ''RF'']"

text \<open>Lines 62 to 65: strip the date text, keep the rows whose text matches.\<close>

definition ff_keep :: "factor_file \<Rightarrow> factor_file" where
  "ff_keep raw = filter (\<lambda>tr. match_yyyymm (fst tr)) (map (\<lambda>tr. (strip (fst tr), snd tr)) raw)"

text \<open>Lines 66 to 70: parse the kept texts, all or none, and index the rows by the dates.\<close>

definition ff_dated :: "factor_file \<Rightarrow> error + date frame" where
  "ff_dated raw =
     (case collect (map (\<lambda>tr. to_datetime (fst tr)) (ff_keep raw)) of
        Inl e \<Rightarrow> Inl e
      | Inr ds \<Rightarrow> Inr (zip ds (map snd (ff_keep raw))))"

text \<open>Lines 73 to 80: the four factor columns, rows with a missing factor dropped, percent to decimal.\<close>

definition ff_load :: "factor_file \<Rightarrow> error + date frame" where
  "ff_load raw =
     (case ff_dated raw of
        Inl e \<Rightarrow> Inl e
      | Inr rows \<Rightarrow>
          Inr (map (\<lambda>kr. (fst kr, \<lambda>c. fl_div (snd kr c) (Fin 100))) (dropna ff_cols rows)))"

section \<open>Aligner and Merger\<close>

text \<open>
  \<^verbatim>\<open>ff.index.min()\<close> and \<^verbatim>\<open>max()\<close> of an empty index are \<^verbatim>\<open>NaT\<close>, here \<open>None\<close>.
  \<^verbatim>\<open>.loc[lo:hi]\<close> on the sorted index of the monthly returns keeps the labels from \<open>lo\<close> to
  \<open>hi\<close>, both included; with \<^verbatim>\<open>NaT\<close> bounds nothing lies between them.
\<close>

definition index_min :: "date list \<Rightarrow> date option" where
  "index_min ds = (if ds = [] then None else Some (Min (set ds)))"

definition index_max :: "date list \<Rightarrow> date option" where
  "index_max ds = (if ds = [] then None else Some (Max (set ds)))"

definition loc_slice :: "date option \<Rightarrow> date option \<Rightarrow> (date \<times> 'a) list \<Rightarrow> (date \<times> 'a) list" where
  "loc_slice lo hi f =
     (case lo of
        None \<Rightarrow> []
      | Some a \<Rightarrow>
          (case hi of
             None \<Rightarrow> []
           | Some b \<Rightarrow> filter (\<lambda>kr. a \<le> fst kr \<and> fst kr \<le> b) f))"

definition panel_cols :: "string list" where
  "panel_cols = stocks @ [''IBEX''] @ ff_cols"

text \<open>
  \<^verbatim>\<open>pd.concat([stock_returns, index_returns.rename("IBEX"), ff], axis=1)\<close>. The index of the
  result is the union of the three indexes, taken from left to right with
  \<^verbatim>\<open>Index.union(other, sort=None)\<close>: the left index itself when the right one is empty or
  equal to it, the right one when the left one is empty, and otherwise the sorted labels of
  both, a label as often as in the index that repeats it most.
\<close>

definition index_union :: "date list \<Rightarrow> date list \<Rightarrow> date list" where
  "index_union xs ys =
     (if ys = [] \<or> xs = ys then xs
      else if xs = [] then ys
      else sort (xs @ fold remove1 xs ys))"

text \<open>
  A part whose index is the index of the result goes into it row by row. Any other part is
  reindexed: at each label of the result it gives its row with that label, or nothing when it
  has none; a part with a repeated label cannot be reindexed, which raises.
\<close>

definition reindex :: "date list \<Rightarrow> (date \<times> 'a) list \<Rightarrow> error + 'a option list" where
  "reindex idx part =
     (if map fst part = idx then Inr (map (\<lambda>kv. Some (snd kv)) part)
      else if distinct (map fst part) then Inr (map (map_of part) idx)
      else Inl InvalidIndexError)"

definition concat_axis1 :: "date frame \<Rightarrow> date series \<Rightarrow> date frame \<Rightarrow> error + date frame" where
  "concat_axis1 sr ir ff =
     (let idx = index_union (index_union (map fst sr) (map fst ir)) (map fst ff) in
      case reindex idx sr of Inl e \<Rightarrow> Inl e | Inr a \<Rightarrow>
     (case reindex idx ir of Inl e \<Rightarrow> Inl e | Inr b \<Rightarrow>
     (case reindex idx ff of Inl e \<Rightarrow> Inl e | Inr c \<Rightarrow>
        Inr (map (\<lambda>i. (idx ! i,
                     \<lambda>col. if col \<in> set stocks then (case a ! i of None \<Rightarrow> NaN | Some r \<Rightarrow> r col)
                           else if col = ''IBEX'' then (case b ! i of None \<Rightarrow> NaN | Some v \<Rightarrow> v)
                           else if col \<in> set ff_cols then (case c ! i of None \<Rightarrow> NaN | Some r \<Rightarrow> r col)
                           else NaN))
               [0 ..< length idx]))))"

text \<open>Lines 87 to 105, from the monthly returns and the factor table to the merged panel.\<close>

definition stock_returns :: "date frame \<Rightarrow> date frame \<Rightarrow> date frame" where
  "stock_returns mr ff = loc_slice (index_min (map fst ff)) (index_max (map fst ff)) mr"

definition index_returns :: "date frame \<Rightarrow> date frame \<Rightarrow> date series" where
  "index_returns mr ff =
     loc_slice (index_min (map fst ff)) (index_max (map fst ff)) (column index_ticker mr)"

definition concatenated :: "date frame \<Rightarrow> date frame \<Rightarrow> error + date frame" where
  "concatenated mr ff = concat_axis1 (stock_returns mr ff) (index_returns mr ff) ff"

definition data_merged :: "date frame \<Rightarrow> date frame \<Rightarrow> error + date frame" where
  "data_merged mr ff =
     (case concatenated mr ff of Inl e \<Rightarrow> Inl e | Inr f \<Rightarrow> Inr (dropna panel_cols f))"

text \<open>Lines 110 to 118: excess returns and the valid stocks.\<close>

definition excess_stock_returns :: "date frame \<Rightarrow> date frame" where
  "excess_stock_returns panel = map (\<lambda>kr. (fst kr, \<lambda>c. fl_sub (snd kr c) (snd kr ''RF''))) panel"

definition excess_ibex :: "date frame \<Rightarrow> date series" where
  "excess_ibex panel = map (\<lambda>kr. (fst kr, fl_sub (snd kr ''IBEX'') (snd kr ''RF''))) panel"

definition valid_stocks :: "date frame \<Rightarrow> string list" where
  "valid_stocks panel =
     filter (\<lambda>s. dropna_series (column s (excess_stock_returns panel)) \<noteq> []) stocks"

section \<open>Regression Engine and Reporters\<close>

text \<open>
  A design matrix is the list of its named columns. \<^verbatim>\<open>sm.OLS(y, X).fit()\<close> is the
  statsmodels library, a parameter \<open>ols\<close> of the model: it may raise, and what it fits is
  labelled by the column names of \<open>X\<close>, so that reading \<^verbatim>\<open>model.params[name]\<close> or
  \<^verbatim>\<open>model.tvalues[name]\<close> for a name that is no column of \<open>X\<close> raises \<^verbatim>\<open>KeyError\<close>.
\<close>

type_synonym design = "(string \<times> fl list) list"

record fit =
  params :: "string \<Rightarrow> fl"
  tvalues :: "string \<Rightarrow> fl"
  rsquared :: fl

type_synonym ols = "fl list \<Rightarrow> design \<Rightarrow> error + fit"

definition by_name :: "design \<Rightarrow> (string \<Rightarrow> fl) \<Rightarrow> string \<Rightarrow> error + fl" where
  "by_name X p name = (if name \<in> set (map fst X) then Inr (p name) else Inl (KeyError name))"

text \<open>A row of a result table is a Python dict: its keys in insertion order, with their values.\<close>

datatype cell = S string | N fl

type_synonym result_row = "(string \<times> cell) list"

text \<open>\<^verbatim>\<open>pd.DataFrame(rows)\<close> takes its columns from the keys of the dicts; no dict, no column.\<close>

definition table_columns :: "result_row list \<Rightarrow> string list" where
  "table_columns rows = (case rows of [] \<Rightarrow> [] | r # _ \<Rightarrow> map fst r)"

text \<open>CAPM: \<^verbatim>\<open>X = pd.DataFrame({"const": 1, "IBEX": excess_ibex})\<close>.\<close>

definition capm_design :: "date frame \<Rightarrow> design" where
  "capm_design panel =
     [(''const'', map (\<lambda>kr. Fin 1) panel), (''IBEX'', map snd (excess_ibex panel))]"

definition capm_row :: "ols \<Rightarrow> date frame \<Rightarrow> string \<Rightarrow> error + result_row" where
  "capm_row ols panel s =
     (case ols (map snd (column s (excess_stock_returns panel))) (capm_design panel) of
        Inl e \<Rightarrow> Inl e
      | Inr m \<Rightarrow>
     (case by_name (capm_design panel) (params m) ''const'' of Inl e \<Rightarrow> Inl e | Inr a \<Rightarrow>
     (case by_name (capm_design panel) (params m) ''IBEX'' of Inl e \<Rightarrow> Inl e | Inr b \<Rightarrow>
     (case by_name (capm_design panel) (tvalues m) ''const'' of Inl e \<Rightarrow> Inl e | Inr ta \<Rightarrow>
     (case by_name (capm_design panel) (tvalues m) ''IBEX'' of Inl e \<Rightarrow> Inl e | Inr tb \<Rightarrow>
        Inr [(''Stock'', S s), (''Alpha'', N a), (''Beta_IBEX'', N b),
             (''Alpha_t'', N ta), (''Beta_t'', N tb), (''R2'', N (rsquared m))])))))"

definition capm_results :: "ols \<Rightarrow> date frame \<Rightarrow> error + result_row list" where
  "capm_results ols panel = collect (map (capm_row ols panel) (valid_stocks panel))"

text \<open>
  Three factors: the three regressors side by side, then \<^verbatim>\<open>sm.add_constant(X)\<close> with its
  default \<^verbatim>\<open>has_constant='skip'\<close>: when a column of \<open>X\<close> is constant and not zero
  (\<^verbatim>\<open>np.ptp(s) == 0 and np.any(s != 0)\<close>), nothing is added; otherwise a column
  \<^verbatim>\<open>const\<close> of ones is put in front.
\<close>

definition is_const_col :: "fl list \<Rightarrow> bool" where
  "is_const_col xs =
     (case xs of
        [] \<Rightarrow> False
      | x # _ \<Rightarrow> (case x of Fin v \<Rightarrow> v \<noteq> 0 \<and> list_all (\<lambda>y. y = Fin v) xs | _ \<Rightarrow> False))"

definition add_constant :: "nat \<Rightarrow> design \<Rightarrow> design" where
  "add_constant nobs X =
     (if list_ex (\<lambda>c. is_const_col (snd c)) X then X
      else (''const'', replicate nobs (Fin 1)) # X)"

definition ff_design :: "date frame \<Rightarrow> design" where
  "ff_design panel =
     add_constant (length panel)
       [(''EX_IBEX'', map snd (excess_ibex panel)),
        (''SMB'', map snd (column ''SMB'' panel)),
        (''HML'', map snd (column ''HML'' panel))]"

definition ff_row :: "ols \<Rightarrow> date frame \<Rightarrow> string \<Rightarrow> error + result_row" where
  "ff_row ols panel s =
     (case ols (map snd (column s (excess_stock_returns panel))) (ff_design panel) of
        Inl e \<Rightarrow> Inl e
      | Inr m \<Rightarrow>
     (case by_name (ff_design panel) (params m) ''const'' of Inl e \<Rightarrow> Inl e | Inr a \<Rightarrow>
     (case by_name (ff_design panel) (params m) ''EX_IBEX'' of Inl e \<Rightarrow> Inl e | Inr b \<Rightarrow>
     (case by_name (ff_design panel) (params m) ''SMB'' of Inl e \<Rightarrow> Inl e | Inr c \<Rightarrow>
     (case by_name (ff_design panel) (params m) ''HML'' of Inl e \<Rightarrow> Inl e | Inr h \<Rightarrow>
        Inr [(''Stock'', S s), (''Alpha'', N a), (''Beta_IBEX'', N b),
             (''SMB_coef'', N c), (''HML_coef'', N h), (''R2'', N (rsquared m))])))))"

definition ff_results :: "ols \<Rightarrow> date frame \<Rightarrow> error + result_row list" where
  "ff_results ols panel = collect (map (ff_row ols panel) (valid_stocks panel))"

text \<open>One scatter chart per valid stock, named after it; drawing is outside the program.\<close>

definition jointplots :: "date frame \<Rightarrow> string list" where
  "jointplots panel = map (\<lambda>s. ''figures/jointplot_'' @ s @ ''_244604.png'') (valid_stocks panel)"

text \<open>The whole script, from the downloaded table and the factor file to what it writes.\<close>

record outputs =
  valid :: "string list"
  capm_table :: "result_row list"
  ff_table :: "result_row list"
  charts :: "string list"

definition run :: "ols \<Rightarrow> close_table \<Rightarrow> factor_file \<Rightarrow> error + outputs" where
  "run ols data raw =
     (case ff_load raw of Inl e \<Rightarrow> Inl e | Inr ff \<Rightarrow>
     (case data_merged (monthly_returns (prices data)) ff of Inl e \<Rightarrow> Inl e | Inr panel \<Rightarrow>
     (case capm_results ols panel of Inl e \<Rightarrow> Inl e | Inr capm \<Rightarrow>
     (case ff_results ols panel of Inl e \<Rightarrow> Inl e | Inr ff3 \<Rightarrow>
        Inr \<lparr>valid = valid_stocks panel, capm_table = capm, ff_table = ff3,
             charts = jointplots panel\<rparr>))))"

section \<open>Joint filtering of the daily prices\<close>

lemma isna_of_input: "isna (of_input v) \<longleftrightarrow> v = None"
  by (cases v) (simp_all add: of_input_def)

lemma dropna_complete: "kr \<in> set (dropna cols f) \<Longrightarrow> complete cols (snd kr)"
  by (simp add: dropna_def)

lemma complete_iff: "complete cols r \<longleftrightarrow> (\<forall>c \<in> set cols. \<not> isna (r c))"
  by (simp add: complete_def list_all_iff)

lemma dropna_subset: "set (dropna cols f) \<subseteq> set f"
  by (auto simp: dropna_def)

lemma map_fst_column: "map fst (column c f) = map fst f"
  by (simp add: column_def comp_def)

text \<open>
  C10. A day stays in \<open>prices\<close> exactly when every ticker, stocks and index alike, has a
  closing price on it; the surviving rows keep their order, no cell of a surviving row is
  missing, and the per-ticker series handed to the resampling all carry the same dates.
\<close>

theorem prices_filtered_jointly:
  "prices data = filter (\<lambda>kr. \<forall>t \<in> set all_tickers. \<not> isna (snd kr t)) (close_frame data)
   \<and> map fst (prices data) =
       map fst (filter (\<lambda>dr. \<forall>t \<in> set all_tickers. snd dr t \<noteq> None) data)
   \<and> (\<forall>kr \<in> set (prices data). \<forall>t \<in> set all_tickers. \<not> isna (snd kr t))
   \<and> (\<forall>t \<in> set all_tickers. \<forall>t' \<in> set all_tickers.
         map fst (column t (prices data)) = map fst (column t' (prices data)))"
proof -
  have a: "prices data =
      filter (\<lambda>kr. \<forall>t \<in> set all_tickers. \<not> isna (snd kr t)) (close_frame data)"
    by (simp add: prices_def dropna_def complete_iff)
  have b: "map fst (prices data) =
      map fst (filter (\<lambda>dr. \<forall>t \<in> set all_tickers. snd dr t \<noteq> None) data)"
    unfolding a close_frame_def
    by (induction data) (simp_all add: isna_of_input)
  have c: "\<forall>kr \<in> set (prices data). \<forall>t \<in> set all_tickers. \<not> isna (snd kr t)"
    unfolding a by simp
  have d: "\<forall>t \<in> set all_tickers. \<forall>t' \<in> set all_tickers.
         map fst (column t (prices data)) = map fst (column t' (prices data))"
    by (simp add: map_fst_column)
  from a b c d show ?thesis by blast
qed

definition close_example :: close_table where
  "close_example =
     [((24276, 2), \<lambda>c. Some 10),
      ((24276, 3), \<lambda>c. if c = ''ENG.MC'' then None else Some 11),
      ((24276, 4), \<lambda>c. Some 12)]"

theorem prices_filtered_jointly_witness:
  "map fst (prices close_example) = [(24276, 2), (24276, 4)]
   \<and> \<not> isna (snd (hd (prices close_example)) ''ENG.MC'')
   \<and> map fst (column ''ENG.MC'' (prices close_example))
       = map fst (column index_ticker (prices close_example))"
proof -
  note t = prices_filtered_jointly [of close_example]
  have e: "map fst (filter (\<lambda>dr. \<forall>t \<in> set all_tickers. snd dr t \<noteq> None) close_example)
        = [(24276, 2), (24276, 4)]"
    by (simp add: close_example_def all_tickers_def stocks_def index_ticker_def)
  have a: "map fst (prices close_example) = [(24276, 2), (24276, 4)]"
    using t [THEN conjunct2, THEN conjunct1] e by (rule trans)
  have ne: "prices close_example \<noteq> []"
  proof
    assume "prices close_example = []"
    then have "map fst (prices close_example) = []" by (simp only: list.map)
    with a show False by (simp only: list.distinct)
  qed
  have m1: "''ENG.MC'' \<in> set all_tickers"
    by (simp add: all_tickers_def stocks_def)
  have m2: "index_ticker \<in> set all_tickers"
    by (simp add: all_tickers_def)
  have b: "\<not> isna (snd (hd (prices close_example)) ''ENG.MC'')"
    by (rule bspec [OF bspec [OF t [THEN conjunct2, THEN conjunct2, THEN conjunct1]
          hd_in_set [OF ne]] m1])
  have c: "map fst (column ''ENG.MC'' (prices close_example))
       = map fst (column index_ticker (prices close_example))"
    by (rule bspec [OF bspec [OF t [THEN conjunct2, THEN conjunct2, THEN conjunct2] m1] m2])
  show ?thesis
    using a b c by (intro conjI)
qed

section \<open>The merged panel\<close>

lemma data_merged_Inr:
  "data_merged mr ff = Inr panel \<Longrightarrow> \<exists>f. concatenated mr ff = Inr f \<and> panel = dropna panel_cols f"
  by (auto simp: data_merged_def split: sum.splits)

lemma rf_col: "''RF'' \<in> set panel_cols" "''RF'' \<notin> set stocks" "''RF'' \<noteq> ''IBEX''" "''RF'' \<in> set ff_cols"
  by (simp_all add: panel_cols_def stocks_def ff_cols_def)

lemma bkt_col: "''BKT.MC'' \<in> set panel_cols" "''BKT.MC'' \<in> set stocks"
  by (simp_all add: panel_cols_def stocks_def)

lemma panel_row_complete:
  assumes "data_merged mr ff = Inr panel" "kr \<in> set panel" "c \<in> set panel_cols"
  shows "\<not> isna (snd kr c)"
proof -
  from assms(1) obtain f where "panel = dropna panel_cols f"
    using data_merged_Inr by blast
  with assms(2) have "complete panel_cols (snd kr)" by (simp add: dropna_complete)
  with assms(3) show ?thesis by (simp add: complete_iff)
qed

lemma loc_slice_keys:
  "map fst (loc_slice lo hi (column c f)) = map fst (loc_slice lo hi f)"
  by (induction f) (auto simp add: loc_slice_def column_def split: option.splits)

lemma index_returns_keys: "map fst (index_returns mr ff) = map fst (stock_returns mr ff)"
  by (simp add: index_returns_def stock_returns_def loc_slice_keys)

lemma distinct_loc_slice: "distinct (map fst f) \<Longrightarrow> distinct (map fst (loc_slice lo hi f))"
  by (auto simp: loc_slice_def distinct_map_filter split: option.splits)






text \<open>
  Two months of returns; a factor file of two months and an annual row; and a factor table
  that has the month of January 2023 twice, which pandas keeps side by side.
\<close>

definition mr_example :: "date frame" where
  "mr_example = [((24276, 1), \<lambda>c. Fin (1 / 10)), ((24277, 1), \<lambda>c. Fin (1 / 5))]"

definition raw_example :: factor_file where
  "raw_example =
     [(''202301'', \<lambda>c. Fin 1), (''  202303 '', \<lambda>c. Fin 2), (''2023'', \<lambda>c. Fin 3)]"

definition ff_example :: "date frame" where
  "ff_example = [((24276, 1), \<lambda>c. Fin (1 / 100)), ((24278, 1), \<lambda>c. Fin (1 / 50))]"

lemma ff_load_example: "ff_load raw_example = Inr ff_example"
  by (simp add: ff_load_def ff_dated_def ff_keep_def raw_example_def ff_example_def strip_def
      is_space_def match_yyyymm_def is_digit_def to_datetime_def digits_val_def month_start_def
      dropna_def complete_def ff_cols_def less_eq_prod_def)

lemma data_merged_example: "\<exists>p. data_merged mr_example ff_example = Inr p \<and> map fst p = [(24276, 1)]"
  by (simp add: data_merged_def concatenated_def concat_axis1_def Let_def stock_returns_def
      index_returns_def loc_slice_def index_min_def index_max_def index_union_def reindex_def
      column_def dropna_def complete_def panel_cols_def stocks_def ff_cols_def index_ticker_def
      mr_example_def ff_example_def less_eq_prod_def min_def max_def)




section \<open>Returns and factors without a common date\<close>

lemma loc_slice_subset: "set (loc_slice lo hi f) \<subseteq> set f"
  by (auto simp: loc_slice_def split: option.splits)

lemma stock_returns_Nil: "stock_returns mr [] = []"
  by (simp add: stock_returns_def index_min_def loc_slice_def)

lemma fold_remove1_disjoint: "set xs \<inter> set ys = {} \<Longrightarrow> fold remove1 xs ys = ys"
  by (induction xs arbitrary: ys) (auto simp add: remove1_idem)

lemma index_union_same: "index_union xs xs = xs"
  by (simp add: index_union_def)

lemma index_union_Nil: "index_union [] ys = ys"
  by (simp add: index_union_def)

lemma index_union_disjoint:
  "xs \<noteq> [] \<Longrightarrow> ys \<noteq> [] \<Longrightarrow> set xs \<inter> set ys = {} \<Longrightarrow> index_union xs ys = sort (xs @ ys)"
proof -
  assume a: "xs \<noteq> []" "ys \<noteq> []" "set xs \<inter> set ys = {}"
  then have "xs \<noteq> ys" by (cases xs) auto
  with a show ?thesis by (simp add: index_union_def fold_remove1_disjoint)
qed

lemma reindex_positional: "reindex (map fst part) part = Inr (map (\<lambda>kv. Some (snd kv)) part)"
  by (simp add: reindex_def)

lemma reindex_longer:
  "length (map fst part) \<noteq> length idx \<Longrightarrow>
   reindex idx part = (if distinct (map fst part) then Inr (map (map_of part) idx) else Inl InvalidIndexError)"
  by (auto simp add: reindex_def)

lemma reindex_empty: "reindex idx [] = Inr (map (\<lambda>d. None) idx)"
  by (auto simp add: reindex_def)

lemma dropna_Nil:
  "(\<And>kr. kr \<in> set f \<Longrightarrow> \<exists>c \<in> set cols. isna (snd kr c)) \<Longrightarrow> dropna cols f = []"
  by (auto simp add: dropna_def complete_iff filter_empty_conv)

lemma map_of_absent: "d \<notin> fst ` set f \<Longrightarrow> map_of f d = None"
  by (simp add: map_of_eq_None_iff)

lemma data_merged_disjoint:
  assumes dis: "fst ` set mr \<inter> fst ` set ff = {}" and dm: "distinct (map fst mr)"
  shows "data_merged mr ff =
     (if stock_returns mr ff \<noteq> [] \<and> \<not> distinct (map fst ff) then Inl InvalidIndexError else Inr [])"
proof -
  let ?sr = "stock_returns mr ff" and ?ir = "index_returns mr ff"
  let ?X = "map fst ?sr" and ?Y = "map fst ff"
  have kx: "map fst ?ir = ?X" by (rule index_returns_keys)
  have "set ?sr \<subseteq> set mr" unfolding stock_returns_def by (rule loc_slice_subset)
  then have sub: "set ?X \<subseteq> fst ` set mr" by auto
  then have "set ?X \<inter> set ?Y \<subseteq> fst ` set mr \<inter> fst ` set ff" by (simp add: le_infI1)
  with dis have xy: "set ?X \<inter> set ?Y = {}" by simp
  have dx: "distinct ?X" unfolding stock_returns_def using dm by (rule distinct_loc_slice)
  show ?thesis
  proof (cases "?sr = []")
    case True
    then have ir: "?ir = []" using kx by simp
    let ?F = "map (\<lambda>i. (?Y ! i,
               \<lambda>col. if col \<in> set stocks then NaN
                     else if col = ''IBEX'' then NaN
                     else if col \<in> set ff_cols then snd (ff ! i) col
                     else NaN)) [0 ..< length ff]"
    have c: "concatenated mr ff = Inr ?F"
      by (auto simp add: concatenated_def concat_axis1_def Let_def True ir index_union_same
          index_union_Nil reindex_positional reindex_empty)
    have "dropna panel_cols ?F = []"
    proof (rule dropna_Nil)
      fix kr assume "kr \<in> set ?F"
      then have "snd kr ''BKT.MC'' = NaN" using bkt_col(2) by auto
      then have "isna (snd kr ''BKT.MC'')" by simp
      then show "\<exists>c \<in> set panel_cols. isna (snd kr c)" by (rule bexI [OF _ bkt_col(1)])
    qed
    then have "data_merged mr ff = Inr []" by (simp add: data_merged_def c)
    with True show ?thesis by simp
  next
    case False
    then have fne: "ff \<noteq> []" using stock_returns_Nil by auto
    from False fne xy have idx: "index_union (index_union ?X (map fst ?ir)) ?Y = sort (?X @ ?Y)"
      by (simp add: kx index_union_same index_union_disjoint)
    let ?idx = "sort (?X @ ?Y)"
    have l1: "length ?X \<noteq> length ?idx" using fne by simp
    have l2: "length ?Y \<noteq> length ?idx" using False by simp
    have r1: "reindex ?idx ?sr = Inr (map (map_of ?sr) ?idx)"
      using reindex_longer [of ?sr ?idx] l1 dx by simp
    have r2: "reindex ?idx ?ir = Inr (map (map_of ?ir) ?idx)"
      using reindex_longer [of ?ir ?idx] l1 dx by (simp add: kx)
    have r3: "reindex ?idx ff =
        (if distinct ?Y then Inr (map (map_of ff) ?idx) else Inl InvalidIndexError)"
      using reindex_longer [of ff ?idx] l2 by simp
    show ?thesis
    proof (cases "distinct ?Y")
      case d: False
      then show ?thesis
        using False by (simp add: data_merged_def concatenated_def concat_axis1_def Let_def idx r1 r2 r3)
    next
      case d: True
      let ?F = "map (\<lambda>i. (?idx ! i,
               \<lambda>col. if col \<in> set stocks then (case map_of ?sr (?idx ! i) of None \<Rightarrow> NaN | Some r \<Rightarrow> r col)
                     else if col = ''IBEX'' then (case map_of ?ir (?idx ! i) of None \<Rightarrow> NaN | Some v \<Rightarrow> v)
                     else if col \<in> set ff_cols then (case map_of ff (?idx ! i) of None \<Rightarrow> NaN | Some r \<Rightarrow> r col)
                     else NaN)) [0 ..< length ?idx]"
      have c: "concatenated mr ff = Inr ?F"
        using d by (auto simp add: concatenated_def concat_axis1_def Let_def idx r1 r2 r3)
      have "dropna panel_cols ?F = []"
      proof (rule dropna_Nil)
        fix kr assume "kr \<in> set ?F"
        then obtain i where i: "i < length ?idx"
          and kr: "snd kr ''BKT.MC'' = (case map_of ?sr (?idx ! i) of None \<Rightarrow> NaN | Some r \<Rightarrow> r ''BKT.MC'')"
            "snd kr ''RF'' = (case map_of ff (?idx ! i) of None \<Rightarrow> NaN | Some r \<Rightarrow> r ''RF'')"
          using bkt_col(2) rf_col(2,3,4) by auto
        from i have "?idx ! i \<in> set ?idx" by (rule nth_mem)
        then have "?idx ! i \<in> set ?X \<or> ?idx ! i \<in> set ?Y" by simp
        then show "\<exists>c \<in> set panel_cols. isna (snd kr c)"
        proof
          assume "?idx ! i \<in> set ?X"
          with xy have "?idx ! i \<notin> fst ` set ff" by auto
          then have "map_of ff (?idx ! i) = None" by (rule map_of_absent)
          with kr(2) have "isna (snd kr ''RF'')" by simp
          then show ?thesis by (rule bexI [OF _ rf_col(1)])
        next
          assume "?idx ! i \<in> set ?Y"
          with xy have "?idx ! i \<notin> fst ` set ?sr" by auto
          then have "map_of ?sr (?idx ! i) = None" by (rule map_of_absent)
          with kr(1) have "isna (snd kr ''BKT.MC'')" by simp
          then show ?thesis by (rule bexI [OF _ bkt_col(1)])
        qed
      qed
      then have "data_merged mr ff = Inr []" by (simp add: data_merged_def c)
      with d show ?thesis by simp
    qed
  qed
qed

lemma ffill_from_keys: "map fst (ffill_from prev f) = map fst f"
  by (induction f arbitrary: prev) simp_all

lemma pct_from_keys: "map fst (pct_from prev f) = map fst f"
  by (induction f arbitrary: prev) simp_all

lemma pct_change_keys: "map fst (pct_change f) = map fst f"
  by (simp add: pct_change_def ffill_def pct_from_keys ffill_from_keys)




text \<open>
  Prices on two month ends give the return of February 2023. Factors for January and March
  around it, and factors far from it with a repeated date, both give the empty panel.
\<close>

definition data_two_months :: close_table where
  "data_two_months = [((24276, 31), \<lambda>c. Some 100), ((24277, 28), \<lambda>c. Some 110)]"

lemma mr_single:
  "monthly_returns (prices data_two_months) = [((24277, 1), \<lambda>c. Fin (1 / 10))]"
  by (simp add: data_two_months_def prices_def close_frame_def dropna_def complete_def
      all_tickers_def stocks_def index_ticker_def of_input_def monthly_returns_def
      monthly_prices_def resample_last_def month_bin_def month_of_def pct_change_def ffill_def)








section \<open>Valid stocks\<close>

lemma reindex_length: "reindex idx part = Inr xs \<Longrightarrow> length xs = length idx"
  by (auto simp add: reindex_def split: if_splits)

lemma reindex_Some:
  assumes "reindex idx part = Inr xs" "i < length idx" "xs ! i = Some r"
  shows "r \<in> snd ` set part"
proof (cases "map fst part = idx")
  case True
  with assms(1) have xs: "xs = map (\<lambda>kv. Some (snd kv)) part" by (simp add: reindex_def)
  from True assms(2) have i: "i < length part" by auto
  with xs assms(3) have "r = snd (part ! i)" by simp
  with i show ?thesis by simp
next
  case False
  with assms(1) have "xs = map (map_of part) idx" by (simp add: reindex_def split: if_splits)
  with assms(2,3) have "map_of part (idx ! i) = Some r" by simp
  then have "(idx ! i, r) \<in> set part" by (rule map_of_SomeD)
  then show ?thesis by force
qed

lemma concat_ff_cell:
  assumes c: "concat_axis1 sr ir ff = Inr f" and k: "kr \<in> set f"
    and col: "col \<in> set ff_cols" "col \<notin> set stocks" "col \<noteq> ''IBEX''"
    and n: "\<not> isna (snd kr col)"
  shows "\<exists>r \<in> snd ` set ff. snd kr col = r col"
proof -
  define idx where "idx = index_union (index_union (map fst sr) (map fst ir)) (map fst ff)"
  from c obtain a b z where z: "reindex idx ff = Inr z"
    and f: "f = map (\<lambda>i. (idx ! i,
                     \<lambda>col. if col \<in> set stocks then (case a ! i of None \<Rightarrow> NaN | Some r \<Rightarrow> r col)
                           else if col = ''IBEX'' then (case b ! i of None \<Rightarrow> NaN | Some v \<Rightarrow> v)
                           else if col \<in> set ff_cols then (case z ! i of None \<Rightarrow> NaN | Some r \<Rightarrow> r col)
                           else NaN))
               [0 ..< length idx]"
    by (auto simp add: concat_axis1_def Let_def idx_def split: sum.splits)
  from k f obtain i where i: "i < length idx"
    and cell: "snd kr col = (case z ! i of None \<Rightarrow> NaN | Some r \<Rightarrow> r col)"
    using col by auto
  from cell n obtain r where r: "z ! i = Some r" "snd kr col = r col"
    by (cases "z ! i") auto
  from reindex_Some [OF z i r(1)] r(2) show ?thesis by blast
qed

lemma panel_rf_finite:
  assumes m: "data_merged mr ff = Inr panel"
    and rf: "\<forall>kr \<in> set ff. \<exists>v. snd kr ''RF'' = Fin v"
    and k: "kr \<in> set panel"
  shows "\<exists>v. snd kr ''RF'' = Fin v"
proof -
  from m obtain f where f: "concatenated mr ff = Inr f" and p: "panel = dropna panel_cols f"
    using data_merged_Inr by blast
  from k p have kf: "kr \<in> set f" using dropna_subset by blast
  from panel_row_complete [OF m k rf_col(1)] have n: "\<not> isna (snd kr ''RF'')" .
  from concat_ff_cell [OF f [unfolded concatenated_def] kf rf_col(4) rf_col(2) rf_col(3) n]
  obtain r where "r \<in> snd ` set ff" "snd kr ''RF'' = r ''RF''" by blast
  with rf show ?thesis by auto
qed

lemma fl_sub_Fin_notna: "\<not> isna x \<Longrightarrow> \<not> isna (fl_sub x (Fin v))"
  by (cases x) simp_all

lemma stocks_panel_cols: "s \<in> set stocks \<Longrightarrow> s \<in> set panel_cols"
  by (simp add: panel_cols_def)

text \<open>
  C9, as the program has it. When the risk-free rate is a finite number in every row of the
  factor table, no excess return over the merged panel is missing, for any stock; so the
  list of valid stocks is the whole configured list when the panel has a row, and empty when
  it has none.
\<close>

theorem valid_stocks_all_or_nothing:
  assumes m: "data_merged mr ff = Inr panel"
    and rf: "\<forall>kr \<in> set ff. \<exists>v. snd kr ''RF'' = Fin v"
  shows "(\<forall>kr \<in> set (excess_stock_returns panel). \<forall>s \<in> set stocks. \<not> isna (snd kr s))
       \<and> valid_stocks panel = (if panel = [] then [] else stocks)"
proof -
  have a: "\<not> isna (fl_sub (snd kr s) (snd kr ''RF''))" if "kr \<in> set panel" "s \<in> set stocks" for kr s
  proof -
    from panel_rf_finite [OF m rf that(1)] obtain v where v: "snd kr ''RF'' = Fin v" by blast
    from panel_row_complete [OF m that(1)] that(2) stocks_panel_cols
    have "\<not> isna (snd kr s)" by blast
    with v show ?thesis by (simp add: fl_sub_Fin_notna)
  qed
  then have e: "\<forall>kr \<in> set (excess_stock_returns panel). \<forall>s \<in> set stocks. \<not> isna (snd kr s)"
    by (auto simp: excess_stock_returns_def)
  have d: "dropna_series (column s (excess_stock_returns panel)) = column s (excess_stock_returns panel)"
    if "s \<in> set stocks" for s
    unfolding dropna_series_def using e that by (auto simp: column_def)
  have "valid_stocks panel = (if panel = [] then [] else stocks)"
  proof (cases "panel = []")
    case True
    then show ?thesis
      by (simp add: valid_stocks_def excess_stock_returns_def column_def dropna_series_def)
  next
    case False
    then have "dropna_series (column s (excess_stock_returns panel)) \<noteq> []" if "s \<in> set stocks" for s
      using d [OF that] by (simp add: column_def excess_stock_returns_def)
    then have "filter (\<lambda>s. dropna_series (column s (excess_stock_returns panel)) \<noteq> []) stocks = stocks"
      by (simp add: filter_id_conv)
    with False show ?thesis by (simp add: valid_stocks_def)
  qed
  with e show ?thesis by blast
qed

theorem valid_stocks_all_or_nothing_witness:
  "(case data_merged mr_example ff_example of
      Inl e \<Rightarrow> False
    | Inr p \<Rightarrow> p \<noteq> [] \<and> valid_stocks p = stocks)"
proof -
  from data_merged_example obtain p where
    p: "data_merged mr_example ff_example = Inr p" "map fst p = [(24276, 1)]"
    by (elim exE conjE)
  from p(2) have ne: "p \<noteq> []" by auto
  have rf: "\<forall>kr \<in> set ff_example. \<exists>v. snd kr ''RF'' = Fin v"
    unfolding ff_example_def by (intro ballI) (auto intro: exI [of _ "1 / 100"] exI [of _ "1 / 50"])
  from valid_stocks_all_or_nothing [OF p(1) rf] ne
  have "valid_stocks p = stocks" by simp
  with p ne show ?thesis by simp
qed

text \<open>
  An infinite risk-free rate (the text \<^verbatim>\<open>inf\<close> in the factor file) against an infinite
  return (a price that rises from zero): the excess return of that stock is missing, it is
  the only row, and four of the five stocks are valid.
\<close>

definition data_zero :: close_table where
  "data_zero =
     [((24276, 31), \<lambda>c. if c = ''BKT.MC'' then Some 0 else Some 100),
      ((24277, 28), \<lambda>c. Some 110)]"

definition raw_inf :: factor_file where
  "raw_inf = [(''202302'', \<lambda>c. if c = ''RF'' then PInf else Fin 1)]"

lemma mr_zero:
  "monthly_returns (prices data_zero)
     = [((24277, 1), \<lambda>c. if c = ''BKT.MC'' then PInf else Fin (1 / 10))]"
  by (auto simp add: data_zero_def prices_def close_frame_def dropna_def complete_def
      all_tickers_def stocks_def index_ticker_def of_input_def monthly_returns_def
      monthly_prices_def resample_last_def month_bin_def month_of_def pct_change_def ffill_def)

lemma ff_inf:
  "ff_load raw_inf = Inr [((24277, 1), \<lambda>c. if c = ''RF'' then PInf else Fin (1 / 100))]"
  by (auto simp add: ff_load_def ff_dated_def ff_keep_def raw_inf_def strip_def is_space_def
      match_yyyymm_def is_digit_def to_datetime_def digits_val_def month_start_def dropna_def
      complete_def ff_cols_def less_eq_prod_def)

lemma dm_inf:
  "\<exists>r. data_merged [((24277, 1), \<lambda>c. if c = ''BKT.MC'' then PInf else Fin (1 / 10))]
          [((24277, 1), \<lambda>c. if c = ''RF'' then PInf else Fin (1 / 100))] = Inr [((24277, 1), r)]
      \<and> r ''RF'' = PInf \<and> r ''BKT.MC'' = PInf \<and> r ''ENG.MC'' = Fin (1 / 10)
      \<and> r ''ANA.MC'' = Fin (1 / 10) \<and> r ''COL.MC'' = Fin (1 / 10) \<and> r ''LOG.MC'' = Fin (1 / 10)"
  by (simp add: data_merged_def concatenated_def concat_axis1_def Let_def stock_returns_def
      index_returns_def loc_slice_def index_min_def index_max_def index_union_def reindex_def
      column_def dropna_def complete_def panel_cols_def stocks_def ff_cols_def index_ticker_def)

theorem proper_subset_valid:
  "(case ff_load raw_inf of
      Inl e \<Rightarrow> False
    | Inr ff \<Rightarrow>
        (case data_merged (monthly_returns (prices data_zero)) ff of
           Inl e \<Rightarrow> False
         | Inr panel \<Rightarrow>
             length panel = 1
             \<and> valid_stocks panel = [''ENG.MC'', ''ANA.MC'', ''COL.MC'', ''LOG.MC'']))"
proof -
  from dm_inf obtain r where
    p: "data_merged [((24277, 1), \<lambda>c. if c = ''BKT.MC'' then PInf else Fin (1 / 10))]
          [((24277, 1), \<lambda>c. if c = ''RF'' then PInf else Fin (1 / 100))] = Inr [((24277, 1), r)]"
    and r: "r ''RF'' = PInf" "r ''BKT.MC'' = PInf" "r ''ENG.MC'' = Fin (1 / 10)"
      "r ''ANA.MC'' = Fin (1 / 10)" "r ''COL.MC'' = Fin (1 / 10)" "r ''LOG.MC'' = Fin (1 / 10)"
    by (elim exE conjE)
  define panel where "panel = [((24277 :: nat, 1 :: nat), r)]"
  have v: "valid_stocks panel = [''ENG.MC'', ''ANA.MC'', ''COL.MC'', ''LOG.MC'']"
    using r by (simp add: panel_def valid_stocks_def excess_stock_returns_def column_def
        dropna_series_def stocks_def)
  have l: "length panel = 1" by (simp add: panel_def)
  from p have "data_merged (monthly_returns (prices data_zero))
      [((24277, 1), \<lambda>c. if c = ''RF'' then PInf else Fin (1 / 100))] = Inr panel"
    by (simp only: mr_zero panel_def)
  with v l show ?thesis by (simp add: ff_inf)
qed

section \<open>The result tables\<close>

lemma collect_map: "collect (map f xs) = Inr ys \<Longrightarrow> list_all2 (\<lambda>x y. f x = Inr y) xs ys"
  by (induction xs arbitrary: ys) (auto split: sum.splits)

lemma capm_row_keys:
  "capm_row ols panel s = Inr r \<Longrightarrow>
     map fst r = [''Stock'', ''Alpha'', ''Beta_IBEX'', ''Alpha_t'', ''Beta_t'', ''R2'']
     \<and> map_of r ''Stock'' = Some (S s)"
  by (auto simp add: capm_row_def split: sum.splits)

lemma ff_row_keys:
  "ff_row ols panel s = Inr r \<Longrightarrow>
     map fst r = [''Stock'', ''Alpha'', ''Beta_IBEX'', ''SMB_coef'', ''HML_coef'', ''R2'']
     \<and> map_of r ''Stock'' = Some (S s)"
  by (auto simp add: ff_row_def split: sum.splits)

lemma rows_of_stocks:
  assumes "list_all2 (\<lambda>s r. f s = Inr r) xs ys"
    and "\<And>s r. f s = Inr r \<Longrightarrow> map_of r ''Stock'' = Some (S s)"
  shows "map (\<lambda>r. map_of r ''Stock'') ys = map (\<lambda>s. Some (S s)) xs"
  using assms(1)
  by (induction rule: list_all2_induct) (simp_all add: assms(2))

lemma rows_keys:
  assumes "list_all2 (\<lambda>s r. f s = Inr r) xs ys"
    and "r \<in> set ys"
    and "\<And>s r. f s = Inr r \<Longrightarrow> map fst r = ks"
  shows "map fst r = ks"
proof -
  from assms(1,2) obtain s where "f s = Inr r"
    by (auto simp add: list_all2_conv_all_nth in_set_conv_nth)
  then show ?thesis by (rule assms(3))
qed

text \<open>
  C5, as the program has it. Every row of the three-factor table has the keys Stock, Alpha,
  Beta_IBEX, SMB_coef, HML_coef and R2, in this order, and no t-statistic; only the CAPM
  table has the two t-statistic columns: its keys are Stock, Alpha, Beta_IBEX, Alpha_t,
  Beta_t and R2.
\<close>

theorem result_table_columns:
  assumes "capm_results ols panel = Inr capm" "ff_results ols panel = Inr ff3"
  shows "(\<forall>r \<in> set ff3. map fst r = [''Stock'', ''Alpha'', ''Beta_IBEX'', ''SMB_coef'', ''HML_coef'', ''R2''])
       \<and> (\<forall>r \<in> set capm. map fst r = [''Stock'', ''Alpha'', ''Beta_IBEX'', ''Alpha_t'', ''Beta_t'', ''R2''])"
proof (intro conjI ballI)
  fix r assume "r \<in> set ff3"
  with collect_map [OF assms(2) [unfolded ff_results_def]]
  show "map fst r = [''Stock'', ''Alpha'', ''Beta_IBEX'', ''SMB_coef'', ''HML_coef'', ''R2'']"
    by (rule rows_keys) (simp add: ff_row_keys)
next
  fix r assume "r \<in> set capm"
  with collect_map [OF assms(1) [unfolded capm_results_def]]
  show "map fst r = [''Stock'', ''Alpha'', ''Beta_IBEX'', ''Alpha_t'', ''Beta_t'', ''R2'']"
    by (rule rows_keys) (simp add: capm_row_keys)
qed

text \<open>A library stand-in that fits whatever it is given, and a panel of two months.\<close>

definition ols_example :: ols where
  "ols_example y X = Inr \<lparr>params = (\<lambda>n. Fin 0), tvalues = (\<lambda>n. Fin 0), rsquared = Fin 0\<rparr>"

definition panel_example :: "date frame" where
  "panel_example = [((24276, 1), \<lambda>c. Fin (1 / 10)), ((24277, 1), \<lambda>c. Fin (1 / 5))]"

lemma valid_stocks_example: "valid_stocks panel_example = stocks"
  by (simp add: valid_stocks_def panel_example_def excess_stock_returns_def column_def
      dropna_series_def stocks_def)

lemma ff_design_example:
  "map fst (ff_design panel_example) = [''const'', ''EX_IBEX'', ''SMB'', ''HML'']"
  by (simp add: ff_design_def add_constant_def is_const_col_def panel_example_def excess_ibex_def
      column_def)

lemma ff_results_example:
  "\<exists>rows. ff_results ols_example panel_example = Inr rows \<and> length rows = 5"
  by (simp add: ff_results_def valid_stocks_example stocks_def ff_row_def ols_example_def
      by_name_def ff_design_example)

lemma capm_results_example:
  "\<exists>rows. capm_results ols_example panel_example = Inr rows \<and> length rows = 5"
  by (simp add: capm_results_def valid_stocks_example stocks_def capm_row_def ols_example_def
      by_name_def capm_design_def)

theorem result_table_columns_witness:
  "(case ff_results ols_example panel_example of
      Inl e \<Rightarrow> False
    | Inr rows \<Rightarrow> length rows = 5
        \<and> map fst (hd rows) = [''Stock'', ''Alpha'', ''Beta_IBEX'', ''SMB_coef'', ''HML_coef'', ''R2''])"
proof -
  from ff_results_example obtain ff3 where
    f: "ff_results ols_example panel_example = Inr ff3" "length ff3 = 5"
    by (elim exE conjE)
  from capm_results_example obtain capm where
    c: "capm_results ols_example panel_example = Inr capm" "length capm = 5"
    by (elim exE conjE)
  from f(2) have "ff3 \<noteq> []" by auto
  then have "hd ff3 \<in> set ff3" by simp
  with result_table_columns [OF c(1) f(1)]
  have "map fst (hd ff3) = [''Stock'', ''Alpha'', ''Beta_IBEX'', ''SMB_coef'', ''HML_coef'', ''R2'']"
    by blast
  with f show ?thesis by simp
qed

text \<open>
  The three-factor table of the two-month panel has five rows and the six columns above:
  \<^verbatim>\<open>Alpha_t\<close> and \<^verbatim>\<open>Beta_t\<close> are not among them.
\<close>

theorem three_factor_table_without_t_columns:
  "(case ff_results ols_example panel_example of
      Inl e \<Rightarrow> False
    | Inr rows \<Rightarrow> length rows = 5
        \<and> table_columns rows = [''Stock'', ''Alpha'', ''Beta_IBEX'', ''SMB_coef'', ''HML_coef'', ''R2'']
        \<and> ''Alpha_t'' \<notin> set (table_columns rows) \<and> ''Beta_t'' \<notin> set (table_columns rows))"
  by (simp add: ff_results_def valid_stocks_example stocks_def ff_row_def ols_example_def
      by_name_def ff_design_example table_columns_def)

lemma valid_stocks_filter:
  "valid_stocks panel =
     filter (\<lambda>s. \<exists>kv \<in> set (column s (excess_stock_returns panel)). \<not> isna (snd kv)) stocks"
  by (simp add: valid_stocks_def dropna_series_def filter_empty_conv)

text \<open>
  C6. When both regressions run through, each result table has one row for each valid stock,
  in the order of the list of valid stocks, which is the configured list without the stocks
  whose excess returns are all missing; there is one chart for each valid stock. A stock
  whose excess returns over the panel are all missing is in neither table and has no chart.
\<close>

theorem one_row_per_valid_stock:
  assumes "capm_results ols panel = Inr capm" "ff_results ols panel = Inr ff3"
  shows "map (\<lambda>r. map_of r ''Stock'') capm = map (\<lambda>s. Some (S s)) (valid_stocks panel)
       \<and> map (\<lambda>r. map_of r ''Stock'') ff3 = map (\<lambda>s. Some (S s)) (valid_stocks panel)
       \<and> length (jointplots panel) = length (valid_stocks panel)
       \<and> valid_stocks panel =
           filter (\<lambda>s. \<exists>kv \<in> set (column s (excess_stock_returns panel)). \<not> isna (snd kv)) stocks
       \<and> (\<forall>s. (\<forall>kv \<in> set (column s (excess_stock_returns panel)). isna (snd kv)) \<longrightarrow>
              s \<notin> set (valid_stocks panel)
              \<and> Some (S s) \<notin> set (map (\<lambda>r. map_of r ''Stock'') capm)
              \<and> Some (S s) \<notin> set (map (\<lambda>r. map_of r ''Stock'') ff3)
              \<and> ''figures/jointplot_'' @ s @ ''_244604.png'' \<notin> set (jointplots panel))"
proof -
  have c: "map (\<lambda>r. map_of r ''Stock'') capm = map (\<lambda>s. Some (S s)) (valid_stocks panel)"
    using collect_map [OF assms(1) [unfolded capm_results_def]]
    by (rule rows_of_stocks) (simp add: capm_row_keys)
  have f: "map (\<lambda>r. map_of r ''Stock'') ff3 = map (\<lambda>s. Some (S s)) (valid_stocks panel)"
    using collect_map [OF assms(2) [unfolded ff_results_def]]
    by (rule rows_of_stocks) (simp add: ff_row_keys)
  have j: "length (jointplots panel) = length (valid_stocks panel)"
    by (simp add: jointplots_def)
  have absent: "s \<notin> set (valid_stocks panel)
      \<and> Some (S s) \<notin> set (map (\<lambda>r. map_of r ''Stock'') capm)
      \<and> Some (S s) \<notin> set (map (\<lambda>r. map_of r ''Stock'') ff3)
      \<and> ''figures/jointplot_'' @ s @ ''_244604.png'' \<notin> set (jointplots panel)"
    if "\<forall>kv \<in> set (column s (excess_stock_returns panel)). isna (snd kv)" for s
  proof -
    from that have n: "s \<notin> set (valid_stocks panel)"
      unfolding valid_stocks_filter by simp
    then have "Some (S s) \<notin> set (map (\<lambda>s. Some (S s)) (valid_stocks panel))" by auto
    moreover from n have "''figures/jointplot_'' @ s @ ''_244604.png'' \<notin> set (jointplots panel)"
      by (auto simp add: jointplots_def)
    ultimately show ?thesis using n c f by simp
  qed
  from c f j valid_stocks_filter absent show ?thesis by blast
qed

definition panel_gap :: "date frame" where
  "panel_gap =
     [((24276, 1), \<lambda>c. if c = ''ENG.MC'' then NaN else Fin (1 / 10)),
      ((24277, 1), \<lambda>c. if c = ''ENG.MC'' then NaN else Fin (1 / 5))]"

lemma valid_stocks_gap: "valid_stocks panel_gap = [''BKT.MC'', ''ANA.MC'', ''COL.MC'', ''LOG.MC'']"
  by (simp add: valid_stocks_def panel_gap_def excess_stock_returns_def column_def
      dropna_series_def stocks_def)

lemma ff_design_gap:
  "map fst (ff_design panel_gap) = [''const'', ''EX_IBEX'', ''SMB'', ''HML'']"
  by (simp add: ff_design_def add_constant_def is_const_col_def panel_gap_def excess_ibex_def
      column_def)

lemma results_gap:
  "\<exists>capm ff3. capm_results ols_example panel_gap = Inr capm
      \<and> ff_results ols_example panel_gap = Inr ff3"
  by (simp add: ff_results_def capm_results_def valid_stocks_gap ff_row_def capm_row_def
      ols_example_def by_name_def ff_design_gap capm_design_def)

theorem one_row_per_valid_stock_witness:
  "(case capm_results ols_example panel_gap of
      Inl e \<Rightarrow> False
    | Inr capm \<Rightarrow>
        (case ff_results ols_example panel_gap of
           Inl e \<Rightarrow> False
         | Inr ff3 \<Rightarrow>
             map (\<lambda>r. map_of r ''Stock'') capm
               = [Some (S ''BKT.MC''), Some (S ''ANA.MC''), Some (S ''COL.MC''), Some (S ''LOG.MC'')]
             \<and> map (\<lambda>r. map_of r ''Stock'') ff3
               = [Some (S ''BKT.MC''), Some (S ''ANA.MC''), Some (S ''COL.MC''), Some (S ''LOG.MC'')]
             \<and> length (jointplots panel_gap) = 4
             \<and> ''figures/jointplot_ENG.MC_244604.png'' \<notin> set (jointplots panel_gap)))"
proof -
  from results_gap obtain capm ff3 where
    r: "capm_results ols_example panel_gap = Inr capm" "ff_results ols_example panel_gap = Inr ff3"
    by (elim exE conjE)
  note t = one_row_per_valid_stock [OF r]
  have m: "\<forall>kv \<in> set (column ''ENG.MC'' (excess_stock_returns panel_gap)). isna (snd kv)"
    by (simp add: panel_gap_def excess_stock_returns_def column_def)
  from t have a: "map (\<lambda>r. map_of r ''Stock'') capm = map (\<lambda>s. Some (S s)) (valid_stocks panel_gap)"
    by (rule conjunct1)
  from t have b: "map (\<lambda>r. map_of r ''Stock'') ff3 = map (\<lambda>s. Some (S s)) (valid_stocks panel_gap)"
    by (elim conjE)
  from t have c: "length (jointplots panel_gap) = length (valid_stocks panel_gap)"
    by (elim conjE)
  from t have "\<forall>s. (\<forall>kv \<in> set (column s (excess_stock_returns panel_gap)). isna (snd kv)) \<longrightarrow>
              s \<notin> set (valid_stocks panel_gap)
              \<and> Some (S s) \<notin> set (map (\<lambda>r. map_of r ''Stock'') capm)
              \<and> Some (S s) \<notin> set (map (\<lambda>r. map_of r ''Stock'') ff3)
              \<and> ''figures/jointplot_'' @ s @ ''_244604.png'' \<notin> set (jointplots panel_gap)"
    by (elim conjE)
  with m have d: "''figures/jointplot_'' @ ''ENG.MC'' @ ''_244604.png'' \<notin> set (jointplots panel_gap)"
    by blast
  from a b c d r show ?thesis by (simp add: valid_stocks_gap)
qed

section \<open>A ticker without prices\<close>

lemma prices_empty:
  assumes "t \<in> set all_tickers" "\<forall>dr \<in> set data. snd dr t = None"
  shows "prices data = []"
proof -
  have "\<not> complete all_tickers (snd kr)" if "kr \<in> set (close_frame data)" for kr
  proof -
    from that assms(2) have "isna (snd kr t)"
      by (auto simp add: close_frame_def of_input_def)
    with assms(1) show ?thesis unfolding complete_iff by blast
  qed
  then show ?thesis by (simp add: prices_def dropna_def filter_empty_conv)
qed

lemma monthly_returns_Nil: "monthly_returns [] = []"
  by (simp add: monthly_returns_def monthly_prices_def resample_last_def pct_change_def
      ffill_def dropna_def)

lemma valid_stocks_Nil: "valid_stocks [] = []"
  by (simp add: valid_stocks_def excess_stock_returns_def column_def dropna_series_def)

lemma data_merged_Nil: "data_merged [] ff = Inr []"
  using data_merged_disjoint [of "[]" ff] by (simp add: stock_returns_def loc_slice_def split: option.splits)

text \<open>
  C4, as the program has it. When a ticker has no closing price on any day of the download,
  the joint removal of incomplete days leaves no day at all. With a factor table that loads,
  the script then ends without an error, with no valid stock, two result tables without
  rows, and no chart.
\<close>

theorem missing_ticker_empties_everything:
  assumes "t \<in> set all_tickers" "\<forall>dr \<in> set data. snd dr t = None"
    and "ff_load raw = Inr ff"
  shows "run ols data raw = Inr \<lparr>valid = [], capm_table = [], ff_table = [], charts = []\<rparr>"
  by (simp add: run_def prices_empty [OF assms(1,2)] monthly_returns_Nil assms(3)
      data_merged_Nil valid_stocks_Nil capm_results_def ff_results_def
      jointplots_def)

text \<open>
  Three month ends on which two of the five stocks have no price, and the three others and
  the index have one.
\<close>

definition data_two_missing :: close_table where
  "data_two_missing =
     [((24276, 31), \<lambda>c. if c = ''ENG.MC'' \<or> c = ''ANA.MC'' then None else Some 100),
      ((24277, 28), \<lambda>c. if c = ''ENG.MC'' \<or> c = ''ANA.MC'' then None else Some 110),
      ((24278, 31), \<lambda>c. if c = ''ENG.MC'' \<or> c = ''ANA.MC'' then None else Some 121)]"

theorem missing_ticker_empties_everything_witness:
  "\<forall>ols. run ols data_two_missing raw_example
      = Inr \<lparr>valid = [], capm_table = [], ff_table = [], charts = []\<rparr>"
proof
  fix ols
  have a: "''ENG.MC'' \<in> set all_tickers" by (simp add: all_tickers_def stocks_def)
  have b: "\<forall>dr \<in> set data_two_missing. snd dr ''ENG.MC'' = None"
    by (simp add: data_two_missing_def)
  show "run ols data_two_missing raw_example
      = Inr \<lparr>valid = [], capm_table = [], ff_table = [], charts = []\<rparr>"
    by (rule missing_ticker_empties_everything [OF a b ff_load_example])
qed

section \<open>The constant regressor\<close>

lemma is_const_col_const:
  "xs \<noteq> [] \<Longrightarrow> \<forall>x \<in> set xs. x = Fin v \<Longrightarrow> v \<noteq> 0 \<Longrightarrow> is_const_col xs"
  by (cases xs) (auto simp add: is_const_col_def list_all_iff)

lemma collect_Inl: "xs \<noteq> [] \<Longrightarrow> \<forall>x \<in> set xs. \<exists>e. x = Inl e \<Longrightarrow> \<exists>e. collect xs = Inl e"
  by (cases xs) auto

text \<open>
  C2, as the program has it. The CAPM design always has the column \<^verbatim>\<open>const\<close>. The
  three-factor design has none when the SMB or the HML column has the same non-zero value in
  every row of the panel (as in a panel of one month): \<^verbatim>\<open>add_constant\<close> then adds
  nothing, and with a valid stock the three-factor regression ends in an error, the library's
  own or the \<^verbatim>\<open>KeyError\<close> of \<^verbatim>\<open>model.params["const"]\<close>.
\<close>

theorem three_factor_constant_skipped:
  assumes "c = ''SMB'' \<or> c = ''HML''" "\<forall>kr \<in> set panel. snd kr c = Fin v" "v \<noteq> 0"
    and "valid_stocks panel \<noteq> []"
  shows "map fst (capm_design panel) = [''const'', ''IBEX'']
       \<and> map fst (ff_design panel) = [''EX_IBEX'', ''SMB'', ''HML'']
       \<and> (\<exists>e. ff_results ols panel = Inl e)"
proof -
  from assms(4) have ne: "panel \<noteq> []" using valid_stocks_Nil by auto
  have "is_const_col (map snd (column c panel))"
    using ne assms(2,3) by (intro is_const_col_const [of _ v]) (auto simp add: column_def)
  with assms(1) have d: "ff_design panel =
       [(''EX_IBEX'', map snd (excess_ibex panel)),
        (''SMB'', map snd (column ''SMB'' panel)),
        (''HML'', map snd (column ''HML'' panel))]"
    by (auto simp add: ff_design_def add_constant_def)
  have "\<exists>e. ff_row ols panel s = Inl e" for s
    by (simp add: ff_row_def d by_name_def split: sum.splits)
  then have "\<exists>e. ff_results ols panel = Inl e"
    unfolding ff_results_def using assms(4) by (intro collect_Inl) auto
  then show ?thesis by (simp add: d capm_design_def)
qed

definition panel_single :: "date frame" where
  "panel_single = [((24277, 1), \<lambda>c. Fin (1 / 10))]"

theorem three_factor_constant_skipped_witness:
  "map fst (ff_design panel_single) = [''EX_IBEX'', ''SMB'', ''HML'']
   \<and> (\<exists>e. ff_results ols_example panel_single = Inl e)"
proof -
  have a: "\<forall>kr \<in> set panel_single. snd kr ''SMB'' = Fin (1 / 10)"
    by (simp add: panel_single_def)
  have b: "valid_stocks panel_single \<noteq> []"
    by (simp add: valid_stocks_def panel_single_def excess_stock_returns_def column_def
      dropna_series_def stocks_def)
  have c: "(1 / 10 :: real) \<noteq> 0" by simp
  from three_factor_constant_skipped [OF disjI1 [OF refl] a c b, of ols_example]
  show ?thesis by (elim conjE, intro conjI)
qed

text \<open>
  The same from the inputs of the script: prices on two month ends give one monthly return,
  the factor file has that month, the panel has one row, and the script stops at the
  three-factor regression.
\<close>

definition raw_single :: factor_file where
  "raw_single = [(''202302'', \<lambda>c. Fin 1)]"

lemma ff_single: "ff_load raw_single = Inr [((24277, 1), \<lambda>c. Fin (1 / 100))]"
  by (simp add: ff_load_def ff_dated_def ff_keep_def raw_single_def strip_def is_space_def
      match_yyyymm_def is_digit_def to_datetime_def digits_val_def month_start_def dropna_def
      complete_def ff_cols_def less_eq_prod_def)

lemma dm_single:
  "\<exists>r. data_merged [((24277, 1), \<lambda>c. Fin (1 / 10))] [((24277, 1), \<lambda>c. Fin (1 / 100))]
        = Inr [((24277, 1), r)] \<and> r ''SMB'' = Fin (1 / 100) \<and> r ''RF'' = Fin (1 / 100)
          \<and> r ''IBEX'' = Fin (1 / 10) \<and> (\<forall>s \<in> set stocks. r s = Fin (1 / 10))"
  by (simp add: data_merged_def concatenated_def concat_axis1_def stock_returns_def
      index_returns_def loc_slice_def index_min_def index_max_def index_union_def reindex_def
      Let_def column_def dropna_def complete_def panel_cols_def stocks_def ff_cols_def
      index_ticker_def)

lemma run_single_month:
  "run ols_example data_two_months raw_single = Inl (KeyError ''const'')"
proof -
  from dm_single obtain r where
    p: "data_merged [((24277, 1), \<lambda>c. Fin (1 / 10))] [((24277, 1), \<lambda>c. Fin (1 / 100))]
        = Inr [((24277, 1), r)]"
    and r: "r ''SMB'' = Fin (1 / 100)" "r ''RF'' = Fin (1 / 100)" "r ''IBEX'' = Fin (1 / 10)"
      "\<forall>s \<in> set stocks. r s = Fin (1 / 10)"
    by (elim exE conjE)
  define panel where "panel = [((24277 :: nat, 1 :: nat), r)]"
  have v: "valid_stocks panel = stocks"
    using r(2,4) by (simp add: panel_def valid_stocks_def excess_stock_returns_def column_def
        dropna_series_def stocks_def)
  have d: "map fst (ff_design panel) = [''EX_IBEX'', ''SMB'', ''HML'']"
    using r(1) by (simp add: panel_def ff_design_def add_constant_def is_const_col_def column_def)
  have c: "\<exists>rows. capm_results ols_example panel = Inr rows"
    by (simp add: capm_results_def v stocks_def capm_row_def ols_example_def by_name_def
        capm_design_def)
  have f: "ff_results ols_example panel = Inl (KeyError ''const'')"
    by (simp add: ff_results_def v stocks_def ff_row_def ols_example_def by_name_def d)
  have "data_merged (monthly_returns (prices data_two_months)) [((24277, 1), \<lambda>c. Fin (1 / 100))]
      = Inr panel"
    unfolding mr_single panel_def by (rule p)
  with c f show ?thesis
    by (auto simp add: run_def ff_single)
qed

section \<open>The date tokens of the factor file\<close>

lemma strip_last: "strip s \<noteq> [] \<Longrightarrow> \<not> is_space (last (strip s))"
proof -
  assume a: "strip s \<noteq> []"
  define t where "t = rev (dropWhile is_space s)"
  from a have ne: "dropWhile is_space t \<noteq> []" by (simp add: strip_def t_def)
  then have "\<not> is_space (hd (dropWhile is_space t))" by (rule hd_dropWhile)
  moreover have "last (strip s) = hd (dropWhile is_space t)"
    using ne by (simp add: strip_def t_def last_rev)
  ultimately show ?thesis by simp
qed

lemma newline_space: "is_space (CHR 0x0A)"
  by (simp add: is_space_def)

lemma match_strip:
  "match_yyyymm (strip s) \<longleftrightarrow> length (strip s) = 6 \<and> list_all is_digit (strip s)"
proof -
  have "False" if "length (strip s) = 7" "strip s ! 6 = CHR 0x0A"
  proof -
    from that(1) have ne: "strip s \<noteq> []" by auto
    with that(1) have "last (strip s) = strip s ! 6" by (simp add: last_conv_nth)
    with that(2) strip_last [OF ne] newline_space show False by simp
  qed
  then show ?thesis by (auto simp add: match_yyyymm_def)
qed

lemma ff_keep_six_digits:
  "ff_keep raw = filter (\<lambda>tr. length (fst tr) = 6 \<and> list_all is_digit (fst tr))
                   (map (\<lambda>tr. (strip (fst tr), snd tr)) raw)"
  unfolding ff_keep_def
  by (rule filter_cong) (auto simp add: match_strip)

lemma collect_map_Inr: "collect (map Inr ys) = Inr ys"
  by (induction ys) simp_all

lemma collect_some_Inl:
  "x \<in> set xs \<Longrightarrow> f x = Inl e \<Longrightarrow> \<exists>e'. collect (map f xs) = Inl e'"
  by (induction xs) (auto split: sum.splits)

lemma to_datetime_ok:
  assumes "length t = 6" "list_all is_digit t"
    and "1 \<le> digits_val (drop 4 t)" "digits_val (drop 4 t) \<le> 12"
    and "1678 \<le> digits_val (take 4 t)" "digits_val (take 4 t) \<le> 2261"
  shows "to_datetime t = Inr (month_start (digits_val (take 4 t)) (digits_val (drop 4 t)))"
  using assms by (simp add: to_datetime_def month_start_def less_eq_prod_def) arith

lemma to_datetime_bad_month:
  "digits_val (drop 4 t) = 0 \<or> 12 < digits_val (drop 4 t) \<Longrightarrow> to_datetime t = Inl ValueError"
  by (auto simp add: to_datetime_def)

lemma fl_div_100_notna: "\<not> isna x \<Longrightarrow> \<not> isna (fl_div x (Fin 100))"
  by (cases x) simp_all

text \<open>After the date stage, a row with a missing factor is dropped (line 79).\<close>

lemma ff_load_complete:
  assumes "ff_load raw = Inr ff" "kr \<in> set ff" "c \<in> set ff_cols"
  shows "\<not> isna (snd kr c)"
proof -
  from assms(1) obtain rows where
    ff: "ff = map (\<lambda>kr. (fst kr, \<lambda>c. fl_div (snd kr c) (Fin 100))) (dropna ff_cols rows)"
    by (auto simp: ff_load_def split: sum.splits)
  with assms(2) obtain k0 where
    k0: "k0 \<in> set (dropna ff_cols rows)" and r: "snd kr = (\<lambda>c. fl_div (snd k0 c) (Fin 100))"
    by auto
  from k0 have "complete ff_cols (snd k0)" by (rule dropna_complete)
  with assms(3) have "\<not> isna (snd k0 c)" by (simp add: complete_iff)
  then show ?thesis unfolding r by (rule fl_div_100_notna)
qed

text \<open>
  C8, as the program has it. The rows that pass the filter are the rows whose date text,
  stripped of surrounding whitespace, is exactly six digits. When in every such text the last
  two digits are a month from 01 to 12 and the first four a year from 1678 to 2261, all of
  them are kept, each labelled with the first day of its month. When one such text has a
  month of 00 or above 12, the conversion raises and the loader delivers no table at all.
\<close>

theorem factor_loader_six_digits:
  "ff_keep raw = filter (\<lambda>tr. length (fst tr) = 6 \<and> list_all is_digit (fst tr))
                   (map (\<lambda>tr. (strip (fst tr), snd tr)) raw)
   \<and> ((\<forall>tr \<in> set (ff_keep raw).
          1 \<le> digits_val (drop 4 (fst tr)) \<and> digits_val (drop 4 (fst tr)) \<le> 12
          \<and> 1678 \<le> digits_val (take 4 (fst tr)) \<and> digits_val (take 4 (fst tr)) \<le> 2261) \<longrightarrow>
        ff_dated raw =
          Inr (map (\<lambda>tr. (month_start (digits_val (take 4 (fst tr))) (digits_val (drop 4 (fst tr))),
                          snd tr)) (ff_keep raw)))
   \<and> ((\<exists>tr \<in> set (ff_keep raw).
          digits_val (drop 4 (fst tr)) = 0 \<or> 12 < digits_val (drop 4 (fst tr))) \<longrightarrow>
        (\<exists>e. ff_dated raw = Inl e \<and> ff_load raw = Inl e))"
proof (intro conjI impI)
  show "ff_keep raw = filter (\<lambda>tr. length (fst tr) = 6 \<and> list_all is_digit (fst tr))
                   (map (\<lambda>tr. (strip (fst tr), snd tr)) raw)"
    by (rule ff_keep_six_digits)
next
  assume a: "\<forall>tr \<in> set (ff_keep raw).
          1 \<le> digits_val (drop 4 (fst tr)) \<and> digits_val (drop 4 (fst tr)) \<le> 12
          \<and> 1678 \<le> digits_val (take 4 (fst tr)) \<and> digits_val (take 4 (fst tr)) \<le> 2261"
  have "to_datetime (fst tr) = Inr (month_start (digits_val (take 4 (fst tr))) (digits_val (drop 4 (fst tr))))"
    if "tr \<in> set (ff_keep raw)" for tr
  proof -
    from that have "length (fst tr) = 6 \<and> list_all is_digit (fst tr)"
      unfolding ff_keep_six_digits by auto
    with a that show ?thesis by (intro to_datetime_ok) auto
  qed
  then have "map (\<lambda>tr. to_datetime (fst tr)) (ff_keep raw)
      = map Inr (map (\<lambda>tr. month_start (digits_val (take 4 (fst tr))) (digits_val (drop 4 (fst tr))))
          (ff_keep raw))"
    by simp
  then have "collect (map (\<lambda>tr. to_datetime (fst tr)) (ff_keep raw))
      = Inr (map (\<lambda>tr. month_start (digits_val (take 4 (fst tr))) (digits_val (drop 4 (fst tr))))
          (ff_keep raw))"
    by (simp only: collect_map_Inr)
  then show "ff_dated raw =
          Inr (map (\<lambda>tr. (month_start (digits_val (take 4 (fst tr))) (digits_val (drop 4 (fst tr))),
                          snd tr)) (ff_keep raw))"
    by (simp add: ff_dated_def zip_map_map zip_same_conv_map)
next
  assume "\<exists>tr \<in> set (ff_keep raw).
          digits_val (drop 4 (fst tr)) = 0 \<or> 12 < digits_val (drop 4 (fst tr))"
  then obtain tr where t: "tr \<in> set (ff_keep raw)"
    "digits_val (drop 4 (fst tr)) = 0 \<or> 12 < digits_val (drop 4 (fst tr))" by blast
  from t(2) have "to_datetime (fst tr) = Inl ValueError" by (rule to_datetime_bad_month)
  with t(1) obtain e where e: "collect (map (\<lambda>tr. to_datetime (fst tr)) (ff_keep raw)) = Inl e"
    using collect_some_Inl [of tr "ff_keep raw" "\<lambda>tr. to_datetime (fst tr)"] by blast
  then show "\<exists>e. ff_dated raw = Inl e \<and> ff_load raw = Inl e"
    by (simp add: ff_dated_def ff_load_def)
qed

definition raw_tokens :: factor_file where
  "raw_tokens = [(''202301'', \<lambda>c. Fin 1), (''20231'', \<lambda>c. Fin 2), (''2023-01'', \<lambda>c. Fin 3)]"

lemma ff_keep_tokens: "map fst (ff_keep raw_tokens) = [''202301'']"
  by (simp add: ff_keep_def raw_tokens_def strip_def is_space_def match_yyyymm_def is_digit_def)

theorem factor_loader_six_digits_witness:
  "(case ff_dated raw_tokens of
      Inl e \<Rightarrow> False
    | Inr rows \<Rightarrow> map fst rows = [(24276, 1)] \<and> month_start 2023 1 = (24276, 1))"
proof -
  have k: "ff_keep raw_tokens = [(''202301'', \<lambda>c. Fin 1)]"
    by (simp add: ff_keep_def raw_tokens_def strip_def is_space_def match_yyyymm_def is_digit_def)
  have "\<forall>tr \<in> set (ff_keep raw_tokens).
          1 \<le> digits_val (drop 4 (fst tr)) \<and> digits_val (drop 4 (fst tr)) \<le> 12
          \<and> 1678 \<le> digits_val (take 4 (fst tr)) \<and> digits_val (take 4 (fst tr)) \<le> 2261"
    by (simp add: k digits_val_def)
  with factor_loader_six_digits [of raw_tokens]
  have "ff_dated raw_tokens =
          Inr (map (\<lambda>tr. (month_start (digits_val (take 4 (fst tr))) (digits_val (drop 4 (fst tr))),
                          snd tr)) (ff_keep raw_tokens))"
    by blast
  then show ?thesis by (simp add: k digits_val_def month_start_def)
qed

text \<open>
  The text \<^verbatim>\<open>202313\<close> is six digits and passes the filter; its row is not kept, the loader
  raises \<^verbatim>\<open>ValueError\<close>.
\<close>

definition raw_month13 :: factor_file where
  "raw_month13 = [(''202301'', \<lambda>c. Fin 1), (''202313'', \<lambda>c. Fin 2)]"

theorem six_digits_not_retained:
  "map fst (ff_keep raw_month13) = [''202301'', ''202313'']
   \<and> length ''202313'' = 6 \<and> list_all is_digit ''202313''
   \<and> ff_dated raw_month13 = Inl ValueError \<and> ff_load raw_month13 = Inl ValueError"
  by (simp add: ff_load_def ff_dated_def ff_keep_def raw_month13_def strip_def is_space_def
      match_yyyymm_def is_digit_def to_datetime_def digits_val_def month_start_def
      less_eq_prod_def)

section \<open>Monthly returns\<close>

lemma last_valid_last: "xs \<noteq> [] \<Longrightarrow> \<not> isna (last xs) \<Longrightarrow> last_valid xs = last xs"
  by (induction xs) auto

lemma fl_div_NaN: "fl_div x NaN = NaN"
  by (cases x) simp_all

lemma ffill_from_nth:
  "i < length f \<Longrightarrow> \<not> isna (snd (f ! i) c) \<Longrightarrow> snd (ffill_from prev f ! i) c = snd (f ! i) c"
  by (induction f arbitrary: prev i) (auto simp add: nth_Cons split: nat.splits)

lemma pct_from_nth:
  "i < length f \<Longrightarrow>
     snd (pct_from prev f ! i) c
       = fl_sub (fl_div (snd (f ! i) c) (if i = 0 then prev c else snd (f ! (i - 1)) c)) (Fin 1)"
  by (induction f arbitrary: prev i) (auto simp add: nth_Cons split: nat.splits)

lemma length_ffill_from: "length (ffill_from prev f) = length f"
  using ffill_from_keys [of prev f] by (metis length_map)

lemma length_pct_from: "length (pct_from prev f) = length f"
  using pct_from_keys [of prev f] by (metis length_map)

lemma length_pct_change: "length (pct_change f) = length f"
  using pct_change_keys [of f] by (metis length_map)

lemma pct_change_first: "f \<noteq> [] \<Longrightarrow> snd (pct_change f ! 0) c = NaN"
  by (simp add: pct_change_def ffill_def pct_from_nth length_ffill_from fl_div_NaN)

lemma pct_change_nth:
  assumes "0 < i" "i < length f" "\<not> isna (snd (f ! i) c)" "\<not> isna (snd (f ! (i - 1)) c)"
  shows "snd (pct_change f ! i) c = fl_sub (fl_div (snd (f ! i) c) (snd (f ! (i - 1)) c)) (Fin 1)"
  using assms
  by (simp add: pct_change_def ffill_def pct_from_nth length_ffill_from ffill_from_nth)

lemma filter_tl:
  assumes "xs \<noteq> []" "\<not> P (hd xs)" "\<And>i. 0 < i \<Longrightarrow> i < length xs \<Longrightarrow> P (xs ! i)"
  shows "filter P xs = tl xs"
proof (cases xs)
  case Nil
  with assms(1) show ?thesis by simp
next
  case (Cons x ys)
  have "P y" if "y \<in> set ys" for y
  proof -
    from that obtain j where "j < length ys" "ys ! j = y" by (auto simp add: in_set_conv_nth)
    with assms(3) [of "Suc j"] Cons show ?thesis by simp
  qed
  with assms(2) Cons show ?thesis by simp
qed

lemma sorted_hd_le: "sorted (map f xs) \<Longrightarrow> x \<in> set xs \<Longrightarrow> f (hd xs) \<le> f x"
  by (cases xs) auto

lemma sorted_le_last: "sorted (map f xs) \<Longrightarrow> x \<in> set xs \<Longrightarrow> f x \<le> f (last xs)"
  by (induction xs) (auto split: if_splits)

lemma month_of_mono: "d \<le> d' \<Longrightarrow> month_of d \<le> month_of d'"
  by (cases d, cases d') (auto simp add: month_of_def less_eq_prod_def)

lemma all_tickers_index: "index_ticker \<in> set all_tickers"
  by (simp add: all_tickers_def)

lemma dropna_first_row:
  assumes "f \<noteq> []"
    and "\<And>i c. 0 < i \<Longrightarrow> i < length f \<Longrightarrow> c \<in> set all_tickers \<Longrightarrow>
           \<not> isna (fl_sub (fl_div (snd (f ! i) c) (snd (f ! (i - 1)) c)) (Fin 1))
           \<and> \<not> isna (snd (f ! i) c) \<and> \<not> isna (snd (f ! (i - 1)) c)"
  shows "dropna all_tickers (pct_change f) = tl (pct_change f)"
  unfolding dropna_def
proof (rule filter_tl)
  from assms(1) show ne: "pct_change f \<noteq> []"
    using length_pct_change [of f] by auto
  have "snd (hd (pct_change f)) index_ticker = NaN"
    using pct_change_first [OF assms(1)] ne by (simp add: hd_conv_nth)
  then show "\<not> complete all_tickers (snd (hd (pct_change f)))"
    unfolding complete_iff using all_tickers_index by force
  fix i assume i: "0 < i" "i < length (pct_change f)"
  then have il: "i < length f" by (simp add: length_pct_change)
  show "complete all_tickers (snd (pct_change f ! i))"
    unfolding complete_iff
  proof
    fix c assume c: "c \<in> set all_tickers"
    from assms(2) [OF i(1) il c] pct_change_nth [OF i(1) il, of c]
    show "\<not> isna (snd (pct_change f ! i) c)" by simp
  qed
qed

lemma sort_key_Nil_iff: "sort_key f xs = [] \<longleftrightarrow> xs = []"
  using length_sort [of f xs] by (metis length_0_conv)

lemma resample_last_nonempty:
  assumes "pr \<noteq> []"
  shows "resample_last pr =
     map (\<lambda>p. (p, \<lambda>c. last_valid (map (\<lambda>kr. snd kr c) (month_bin p (sort_key fst pr)))))
       [month_of (fst (hd (sort_key fst pr))) ..< Suc (month_of (fst (last (sort_key fst pr))))]"
  using assms by (simp add: resample_last_def Let_def sort_key_Nil_iff)

lemma first_row_dropped:
  assumes "length f = Suc 0"
  shows "dropna all_tickers (pct_change f) = []"
proof -
  from assms have "length (pct_change f) = Suc 0" by (simp add: length_pct_change)
  then obtain r where r: "pct_change f = [r]" by (auto simp add: length_Suc_conv)
  from assms have "f \<noteq> []" by auto
  from pct_change_first [OF this, of index_ticker] r have "snd r index_ticker = NaN" by simp
  then have "isna (snd r index_ticker)" by simp
  then have "\<not> complete all_tickers (snd r)"
    unfolding complete_iff using all_tickers_index by blast
  then show ?thesis by (simp add: r dropna_def)
qed

lemma single_month_empty:
  assumes "card (month_of ` fst ` set pr) < 2"
  shows "monthly_returns pr = []"
proof (cases "pr = []")
  case True
  then show ?thesis
    by (simp add: monthly_returns_def monthly_prices_def resample_last_def pct_change_def
        ffill_def dropna_def)
next
  case False
  define s where "s = sort_key fst pr"
  define M where "M = month_of ` fst ` set pr"
  have ss: "set s = set pr" by (simp add: s_def)
  from False have ne: "s \<noteq> []" by (simp add: s_def sort_key_Nil_iff)
  have fin: "finite M" by (simp add: M_def)
  from ne have "hd s \<in> set s" "last s \<in> set s" by simp_all
  then have a: "month_of (fst (hd s)) \<in> M" "month_of (fst (last s)) \<in> M"
    unfolding M_def ss by (simp_all only: imageI)
  from assms have "card M \<le> Suc 0" by (simp add: M_def)
  with fin have all: "\<forall>a \<in> M. \<forall>b \<in> M. a = b" by (simp only: card_le_Suc0_iff_eq)
  have eq: "month_of (fst (last s)) = month_of (fst (hd s))"
    by (rule bspec [OF bspec [OF all a(2)] a(1)])
  have "length (resample_last pr) = Suc 0"
    unfolding resample_last_nonempty [OF False] s_def [symmetric] eq by simp
  then have "dropna all_tickers (pct_change (resample_last pr)) = []" by (rule first_row_dropped)
  then show ?thesis by (simp add: monthly_returns_def monthly_prices_def)
qed

lemma month_ends:
  assumes months: "month_of ` fst ` set pr = {m0..m1}" and le: "m0 \<le> m1"
  shows "pr \<noteq> []"
    and "month_of (fst (hd (sort_key fst pr))) = m0"
    and "month_of (fst (last (sort_key fst pr))) = m1"
proof -
  define s where "s = sort_key fst pr"
  have ss: "set s = set pr" by (simp add: s_def)
  have so: "sorted (map fst s)" by (simp add: s_def)
  from months le have "m0 \<in> month_of ` fst ` set pr" by simp
  then show ne0: "pr \<noteq> []" by auto
  then have ne: "s \<noteq> []" by (simp add: s_def sort_key_Nil_iff)
  have rng: "m0 \<le> month_of (fst kr) \<and> month_of (fst kr) \<le> m1" if "kr \<in> set s" for kr
  proof -
    from that have "month_of (fst kr) \<in> month_of ` fst ` set pr" unfolding ss by simp
    then show ?thesis unfolding months by simp
  qed
  from months le have "m0 \<in> month_of ` fst ` set s" "m1 \<in> month_of ` fst ` set s"
    unfolding ss by simp_all
  then obtain k0 k1 where k0: "k0 \<in> set s" "month_of (fst k0) = m0"
    and k1: "k1 \<in> set s" "month_of (fst k1) = m1"
    by auto
  have "month_of (fst (hd s)) \<le> m0"
    using month_of_mono [OF sorted_hd_le [OF so k0(1)]] k0(2) by simp
  moreover have "m0 \<le> month_of (fst (hd s))" using rng [of "hd s"] ne by simp
  ultimately show "month_of (fst (hd (sort_key fst pr))) = m0" unfolding s_def by simp
  have "m1 \<le> month_of (fst (last s))"
    using month_of_mono [OF sorted_le_last [OF so k1(1)]] k1(2) by simp
  moreover have "month_of (fst (last s)) \<le> m1" using rng [of "last s"] ne by simp
  ultimately show "month_of (fst (last (sort_key fst pr))) = m1" unfolding s_def by simp
qed

lemma resample_contiguous:
  assumes months: "month_of ` fst ` set pr = {m0..m1}" and le: "m0 \<le> m1"
  shows "resample_last pr =
     map (\<lambda>p. (p, \<lambda>c. last_valid (map (\<lambda>kr. snd kr c) (month_bin p (sort_key fst pr)))))
       [m0 ..< Suc m1]"
  unfolding resample_last_nonempty [OF month_ends(1) [OF assms]] month_ends(2,3) [OF assms] ..

lemma month_bin_nonempty:
  assumes months: "month_of ` fst ` set pr = {m0..m1}" and p: "m0 \<le> p" "p \<le> m1"
  shows "month_bin p (sort_key fst pr) \<noteq> []"
proof -
  from p have "p \<in> month_of ` fst ` set pr" unfolding months by simp
  then obtain kr where "kr \<in> set pr" "month_of (fst kr) = p" by auto
  then have "kr \<in> set (month_bin p (sort_key fst pr))" by (simp add: month_bin_def)
  then show ?thesis by auto
qed

lemma resample_cell:
  assumes "month_bin p s \<noteq> []" "\<not> isna (snd (last (month_bin p s)) c)"
  shows "last_valid (map (\<lambda>kr. snd kr c) (month_bin p s)) = snd (last (month_bin p s)) c"
  using assms by (simp add: last_valid_last last_map)

lemma contiguous_returns:
  assumes months: "month_of ` fst ` set pr = {m0..m1}" and le: "m0 \<le> m1"
    and ends: "\<forall>p \<in> {m0..m1}. \<forall>c \<in> set all_tickers.
                 \<exists>v. snd (last (month_bin p (sort_key fst pr))) c = Fin v \<and> v \<noteq> 0"
  shows "map fst (monthly_returns pr) = map (\<lambda>p. (p, 1)) [Suc m0 ..< Suc m1]"
    and "\<And>p c. Suc m0 \<le> p \<Longrightarrow> p \<le> m1 \<Longrightarrow> c \<in> set all_tickers \<Longrightarrow>
           \<exists>a b r. snd (last (month_bin p (sort_key fst pr))) c = Fin a
               \<and> snd (last (month_bin (p - 1) (sort_key fst pr))) c = Fin b \<and> b \<noteq> 0
               \<and> map_of (monthly_returns pr) (p, 1) = Some r \<and> r c = Fin ((a - b) / b)"
proof -
  define s where "s = sort_key fst pr"
  define f where "f = resample_last pr"
  define g where "g = pct_change f"
  have f: "f = map (\<lambda>p. (p, \<lambda>c. last_valid (map (\<lambda>kr. snd kr c) (month_bin p s)))) [m0 ..< Suc m1]"
    unfolding f_def s_def by (rule resample_contiguous [OF months le])
  have lf: "length f = Suc m1 - m0" by (simp add: f del: upt_Suc)
  have kf: "map fst f = [m0 ..< Suc m1]" by (simp add: f comp_def del: upt_Suc)
  have cell: "snd (f ! i) c = snd (last (month_bin (m0 + i) s)) c"
    and fin: "\<exists>v. snd (f ! i) c = Fin v \<and> v \<noteq> 0"
    if "i < length f" "c \<in> set all_tickers" for i c
  proof -
    from that(1) lf have p: "m0 \<le> m0 + i" "m0 + i \<le> m1" by simp_all
    then have "m0 + i \<in> {m0..m1}" by simp
    with ends that(2) obtain v where v: "snd (last (month_bin (m0 + i) s)) c = Fin v" "v \<noteq> 0"
      unfolding s_def by blast
    have ne: "month_bin (m0 + i) s \<noteq> []"
      unfolding s_def by (rule month_bin_nonempty [OF months p])
    from v(1) have "\<not> isna (snd (last (month_bin (m0 + i) s)) c)" by simp
    from resample_cell [OF ne this] that(1) lf
    show c: "snd (f ! i) c = snd (last (month_bin (m0 + i) s)) c" by (simp add: f del: upt_Suc)
    with v show "\<exists>v. snd (f ! i) c = Fin v \<and> v \<noteq> 0" by simp
  qed
  have fne: "f \<noteq> []" using lf le by auto
  have step: "\<exists>a b. snd (f ! i) c = Fin a \<and> snd (f ! (i - 1)) c = Fin b \<and> b \<noteq> 0
      \<and> snd (g ! i) c = Fin ((a - b) / b)"
    if "0 < i" "i < length f" "c \<in> set all_tickers" for i c
  proof -
    from fin [OF that(2,3)] obtain a where a: "snd (f ! i) c = Fin a" by blast
    from that(2) have "i - 1 < length f" by simp
    from fin [OF this that(3)] obtain b where b: "snd (f ! (i - 1)) c = Fin b" "b \<noteq> 0" by blast
    have na: "\<not> isna (snd (f ! i) c)" using a by simp
    have nb: "\<not> isna (snd (f ! (i - 1)) c)" using b(1) by simp
    have "snd (g ! i) c = fl_sub (fl_div (snd (f ! i) c) (snd (f ! (i - 1)) c)) (Fin 1)"
      unfolding g_def by (rule pct_change_nth [OF that(1,2) na nb])
    also have "\<dots> = Fin (a / b - 1)" using a b by simp
    also have "a / b - 1 = (a - b) / b" using b(2) by (simp add: field_simps)
    finally show ?thesis using a b by blast
  qed
  have d: "dropna all_tickers g = tl g"
    unfolding g_def
  proof (rule dropna_first_row [OF fne])
    fix i c assume i: "0 < i" "i < length f" and c: "c \<in> set all_tickers"
    from step [OF i c] obtain a b where
      "snd (f ! i) c = Fin a" "snd (f ! (i - 1)) c = Fin b" "b \<noteq> 0" by blast
    then show "\<not> isna (fl_sub (fl_div (snd (f ! i) c) (snd (f ! (i - 1)) c)) (Fin 1))
           \<and> \<not> isna (snd (f ! i) c) \<and> \<not> isna (snd (f ! (i - 1)) c)"
      by simp
  qed
  have mr: "monthly_returns pr = map (\<lambda>kr. ((fst kr, 1), snd kr)) (tl g)"
    by (simp add: monthly_returns_def monthly_prices_def f_def [symmetric] g_def [symmetric] d)
  have kg: "map fst g = [m0 ..< Suc m1]" unfolding g_def by (simp add: pct_change_keys kf)
  have "map fst (tl g) = [Suc m0 ..< Suc m1]"
    using kg by (simp add: map_tl tl_upt del: upt_Suc)
  then have "map (\<lambda>k. (k, 1 :: nat)) (map fst (tl g)) = map (\<lambda>p. (p, 1)) [Suc m0 ..< Suc m1]"
    by simp
  then show keys: "map fst (monthly_returns pr) = map (\<lambda>p. (p, 1)) [Suc m0 ..< Suc m1]"
    by (simp add: mr comp_def)
  have dist: "distinct (map fst (monthly_returns pr))"
    unfolding keys by (simp add: distinct_map inj_on_def del: upt_Suc)
  fix p c assume p: "Suc m0 \<le> p" "p \<le> m1" and c: "c \<in> set all_tickers"
  define i where "i = p - m0"
  from p have i: "0 < i" "i < length f" "m0 + i = p" "m0 + (i - 1) = p - 1"
    by (simp_all add: i_def lf)
  have lg: "length g = length f" unfolding g_def by (rule length_pct_change)
  from step [OF i(1,2) c] obtain a b where
    ab: "snd (f ! i) c = Fin a" "snd (f ! (i - 1)) c = Fin b" "b \<noteq> 0"
      "snd (g ! i) c = Fin ((a - b) / b)" by blast
  from i(2) have i1: "i - 1 < length f" by simp
  have ca: "snd (last (month_bin p s)) c = Fin a"
    using cell [OF i(2) c] ab(1) i(3) by simp
  have cb: "snd (last (month_bin (p - 1) s)) c = Fin b"
    using cell [OF i1 c] ab(2) i(4) by simp
  have "fst (g ! i) = p"
    using kg i lg by (metis add_diff_cancel_left' diff_Suc_less length_map length_upt nth_map nth_upt
        less_diff_conv add.commute)
  moreover have "g ! i \<in> set (tl g)"
    using i lg by (metis Suc_pred in_set_conv_nth length_tl less_diff_conv nth_tl add.commute plus_1_eq_Suc)
  ultimately have "((p, 1), snd (g ! i)) \<in> set (monthly_returns pr)"
    unfolding mr by force
  with dist have "map_of (monthly_returns pr) (p, 1) = Some (snd (g ! i))"
    by (rule map_of_is_SomeI)
  with ca cb ab(3,4)
  show "\<exists>a b r. snd (last (month_bin p (sort_key fst pr))) c = Fin a
               \<and> snd (last (month_bin (p - 1) (sort_key fst pr))) c = Fin b \<and> b \<noteq> 0
               \<and> map_of (monthly_returns pr) (p, 1) = Some r \<and> r c = Fin ((a - b) / b)"
    unfolding s_def by blast
qed

text \<open>
  C1, as the program has it. Prices in fewer than two calendar months give no monthly return.
  When the months with a price are the months from \<open>m0\<close> to \<open>m1\<close> without a gap, and the
  last price of every month is a number other than zero for every ticker, there is one
  monthly return for each month after the first, as many as observed months less one; the
  return of month \<open>p\<close> is labelled with the first day of \<open>p\<close> and is the last price
  of \<open>p\<close> less the last price of the month before, divided by the latter.
\<close>

theorem monthly_returns_by_month:
  "(card (month_of ` fst ` set pr) < 2 \<longrightarrow> monthly_returns pr = [])
   \<and> (month_of ` fst ` set pr = {m0..m1} \<and> m0 \<le> m1
        \<and> (\<forall>p \<in> {m0..m1}. \<forall>c \<in> set all_tickers.
              \<exists>v. snd (last (month_bin p (sort_key fst pr))) c = Fin v \<and> v \<noteq> 0)
      \<longrightarrow> map fst (monthly_returns pr) = map (\<lambda>p. (p, 1)) [Suc m0 ..< Suc m1]
        \<and> length (monthly_returns pr) = card (month_of ` fst ` set pr) - 1
        \<and> (\<forall>p \<in> {Suc m0..m1}. \<forall>c \<in> set all_tickers.
              \<exists>a b r. snd (last (month_bin p (sort_key fst pr))) c = Fin a
                \<and> snd (last (month_bin (p - 1) (sort_key fst pr))) c = Fin b \<and> b \<noteq> 0
                \<and> map_of (monthly_returns pr) (p, 1) = Some r \<and> r c = Fin ((a - b) / b)))"
proof (intro conjI impI)
  assume "card (month_of ` fst ` set pr) < 2"
  then show "monthly_returns pr = []" by (rule single_month_empty)
next
  assume h: "month_of ` fst ` set pr = {m0..m1} \<and> m0 \<le> m1
        \<and> (\<forall>p \<in> {m0..m1}. \<forall>c \<in> set all_tickers.
              \<exists>v. snd (last (month_bin p (sort_key fst pr))) c = Fin v \<and> v \<noteq> 0)"
  then have months: "month_of ` fst ` set pr = {m0..m1}" and le: "m0 \<le> m1"
    and ends: "\<forall>p \<in> {m0..m1}. \<forall>c \<in> set all_tickers.
              \<exists>v. snd (last (month_bin p (sort_key fst pr))) c = Fin v \<and> v \<noteq> 0"
    by simp_all
  show keys: "map fst (monthly_returns pr) = map (\<lambda>p. (p, 1)) [Suc m0 ..< Suc m1]"
    by (rule contiguous_returns(1) [OF months le ends])
  have "length (map fst (monthly_returns pr)) = m1 - m0"
    unfolding keys by (simp del: upt_Suc)
  then show "length (monthly_returns pr) = card (month_of ` fst ` set pr) - 1"
    using le by (simp add: months)
  show "\<forall>p \<in> {Suc m0..m1}. \<forall>c \<in> set all_tickers.
              \<exists>a b r. snd (last (month_bin p (sort_key fst pr))) c = Fin a
                \<and> snd (last (month_bin (p - 1) (sort_key fst pr))) c = Fin b \<and> b \<noteq> 0
                \<and> map_of (monthly_returns pr) (p, 1) = Some r \<and> r c = Fin ((a - b) / b)"
  proof (intro ballI)
    fix p c assume "p \<in> {Suc m0..m1}" and c: "c \<in> set all_tickers"
    then have p: "Suc m0 \<le> p" "p \<le> m1" by simp_all
    show "\<exists>a b r. snd (last (month_bin p (sort_key fst pr))) c = Fin a
                \<and> snd (last (month_bin (p - 1) (sort_key fst pr))) c = Fin b \<and> b \<noteq> 0
                \<and> map_of (monthly_returns pr) (p, 1) = Some r \<and> r c = Fin ((a - b) / b)"
      by (rule contiguous_returns(2) [OF months le ends p c])
  qed
qed

text \<open>Three months of prices, the second with two days.\<close>

definition data_months :: close_table where
  "data_months =
     [((24276, 31), \<lambda>c. Some 100), ((24277, 10), \<lambda>c. Some 105),
      ((24277, 28), \<lambda>c. Some 110), ((24278, 31), \<lambda>c. Some 121)]"

lemma prices_months:
  "prices data_months =
     [((24276, 31), \<lambda>c. Fin 100), ((24277, 10), \<lambda>c. Fin 105),
      ((24277, 28), \<lambda>c. Fin 110), ((24278, 31), \<lambda>c. Fin 121)]"
  by (simp add: data_months_def prices_def close_frame_def dropna_def complete_def
      all_tickers_def stocks_def index_ticker_def of_input_def)

lemma sorted_months:
  "sort_key fst (prices data_months) = prices data_months"
  by (simp add: prices_months less_eq_prod_def)

lemma months_months: "month_of ` fst ` set (prices data_months) = {24276..24278}"
  by (auto simp add: prices_months month_of_def)

lemma ends_months:
  "\<forall>p \<in> {24276..24278}. \<forall>c \<in> set all_tickers.
     \<exists>v. snd (last (month_bin p (sort_key fst (prices data_months)))) c = Fin v \<and> v \<noteq> 0"
proof (intro ballI)
  fix p :: nat and c assume "p \<in> {24276..24278}"
  then have "p = 24276 \<or> p = 24277 \<or> p = 24278" by auto
  then show "\<exists>v. snd (last (month_bin p (sort_key fst (prices data_months)))) c = Fin v \<and> v \<noteq> 0"
    unfolding sorted_months by (auto simp add: prices_months month_bin_def month_of_def)
qed

theorem monthly_returns_by_month_witness:
  "map fst (monthly_returns (prices data_months)) = [(24277, 1), (24278, 1)]
   \<and> (\<exists>r. map_of (monthly_returns (prices data_months)) (24278, 1) = Some r
          \<and> r ''ENG.MC'' = Fin (1 / 10))"
proof -
  note t = monthly_returns_by_month [of "prices data_months" 24276 24278, THEN conjunct2, rule_format]
  have h: "month_of ` fst ` set (prices data_months) = {24276..24278} \<and> (24276 :: nat) \<le> 24278
        \<and> (\<forall>p \<in> {24276..24278}. \<forall>c \<in> set all_tickers.
              \<exists>v. snd (last (month_bin p (sort_key fst (prices data_months)))) c = Fin v \<and> v \<noteq> 0)"
    using months_months ends_months by simp
  have e: "''ENG.MC'' \<in> set all_tickers" by (simp add: all_tickers_def stocks_def)
  have k: "map fst (monthly_returns (prices data_months)) = map (\<lambda>p. (p, 1)) [Suc 24276 ..< Suc 24278]"
    using t [OF h] by (rule conjunct1)
  have "\<forall>p \<in> {Suc 24276..24278}. \<forall>c \<in> set all_tickers.
              \<exists>a b r. snd (last (month_bin p (sort_key fst (prices data_months)))) c = Fin a
                \<and> snd (last (month_bin (p - 1) (sort_key fst (prices data_months)))) c = Fin b \<and> b \<noteq> 0
                \<and> map_of (monthly_returns (prices data_months)) (p, 1) = Some r \<and> r c = Fin ((a - b) / b)"
    using t [OF h] by (elim conjE)
  moreover have "(24278 :: nat) \<in> {Suc 24276..24278}" by simp
  ultimately obtain a b r where
    r: "snd (last (month_bin 24278 (sort_key fst (prices data_months)))) ''ENG.MC'' = Fin a"
      "snd (last (month_bin (24278 - 1) (sort_key fst (prices data_months)))) ''ENG.MC'' = Fin b"
      "map_of (monthly_returns (prices data_months)) (24278, 1) = Some r"
      "r ''ENG.MC'' = Fin ((a - b) / b)"
    using e by blast
  from r(1) have a: "a = 121"
    unfolding sorted_months by (simp add: prices_months month_bin_def month_of_def)
  from r(2) have b: "b = 110"
    unfolding sorted_months by (simp add: prices_months month_bin_def month_of_def)
  from r(4) have "r ''ENG.MC'' = Fin (1 / 10)" by (simp add: a b)
  with r(3) have "\<exists>r. map_of (monthly_returns (prices data_months)) (24278, 1) = Some r
          \<and> r ''ENG.MC'' = Fin (1 / 10)" by blast
  moreover have "map (\<lambda>p. (p, 1 :: nat)) [Suc 24276 ..< Suc 24278] = [(24277, 1), (24278, 1)]"
    by (simp add: upt_rec)
  ultimately show ?thesis using k by simp
qed

text \<open>
  Prices in January and March only: two observed months, and two monthly returns, one of
  them for February, where no price was observed; it is zero, after the forward fill.
\<close>

definition data_gap :: close_table where
  "data_gap = [((24276, 31), \<lambda>c. Some 100), ((24278, 31), \<lambda>c. Some 110)]"

theorem skipped_month_counted:
  "card (month_of ` fst ` set (prices data_gap)) = 2
   \<and> map fst (monthly_returns (prices data_gap)) = [(24277, 1), (24278, 1)]
   \<and> map (\<lambda>kr. snd kr ''ENG.MC'') (monthly_returns (prices data_gap)) = [Fin 0, Fin (1 / 10)]"
  by (simp add: data_gap_def prices_def close_frame_def dropna_def complete_def
      all_tickers_def stocks_def index_ticker_def of_input_def monthly_returns_def
      monthly_prices_def resample_last_def month_bin_def month_of_def pct_change_def ffill_def)

end
